theory Spec2Isabelle
  imports Main "HOL-Library.Sublist"
begin

section \<open>Strings and POSIX path functions used by the scripts\<close>

text \<open>
  Python strings are modelled as \<^typ>\<open>string\<close>; the two box-drawing glyphs of
  \<^verbatim>\<open>tree.py\<close> are written as their UTF-8 bytes.  The only length-sensitive operation
  of the scripts on strings, \<^verbatim>\<open>relative_root.count(os.sep)\<close>, counts an ASCII
  character, so it counts the same in bytes and in code points.  Paths follow
  \<^verbatim>\<open>posixpath\<close>: \<^verbatim>\<open>os.sep\<close> is the one character \<^verbatim>\<open>/\<close>.
\<close>

datatype py_error = ValueError

definition os_sep :: string where
  "os_sep = ''/''"

definition newline :: string where
  "newline = [CHR 0x0A]"

text \<open>\<^verbatim>\<open>s.count(os.sep)\<close> for the one-character separator.\<close>

definition count_sep :: "string \<Rightarrow> nat" where
  "count_sep s = length (filter (\<lambda>c. c = CHR ''/'') s)"

text \<open>\<^verbatim>\<open>s.split(os.sep)\<close>: the pieces between separators; never the empty list.\<close>

fun split_sep :: "string \<Rightarrow> string list" where
  "split_sep [] = [[]]"
| "split_sep (c # cs) =
     (if c = CHR ''/'' then [] # split_sep cs
      else (c # hd (split_sep cs)) # tl (split_sep cs))"

text \<open>\<^verbatim>\<open>d.join(xs)\<close>.\<close>

fun str_join :: "string \<Rightarrow> string list \<Rightarrow> string" where
  "str_join d [] = []"
| "str_join d [x] = x"
| "str_join d (x # y # zs) = x @ d @ str_join d (y # zs)"

text \<open>\<^verbatim>\<open>str(n)\<close> for a non-negative integer.\<close>

definition digit_char :: "nat \<Rightarrow> char" where
  "digit_char d = ''0123456789'' ! d"

fun str_nat :: "nat \<Rightarrow> string" where
  "str_nat n = (if n < 10 then [digit_char n] else str_nat (n div 10) @ [digit_char (n mod 10)])"

declare str_nat.simps [simp del]

text \<open>\<^verbatim>\<open>posixpath.join(a, b)\<close>.\<close>

definition path_join :: "string \<Rightarrow> string \<Rightarrow> string" where
  "path_join a b =
     (if prefix ''/'' b then b
      else if a = [] \<or> suffix ''/'' a then a @ b
      else a @ ''/'' @ b)"

text \<open>\<^verbatim>\<open>posixpath.join(*xs)\<close> for a non-empty argument list.\<close>

definition path_join_all :: "string list \<Rightarrow> string" where
  "path_join_all xs = foldl path_join (hd xs) (tl xs)"

text \<open>\<^verbatim>\<open>posixpath.basename(p)\<close>: what follows the last separator.\<close>

definition path_basename :: "string \<Rightarrow> string" where
  "path_basename p = rev (takeWhile (\<lambda>c. c \<noteq> CHR ''/'') (rev p))"

text \<open>\<^verbatim>\<open>posixpath.normpath\<close>: one or two leading slashes are kept, three or more
  collapse to one; empty and \<^verbatim>\<open>.\<close> components are dropped, \<^verbatim>\<open>..\<close> pops.\<close>

definition initial_slashes :: "string \<Rightarrow> nat" where
  "initial_slashes path =
     (if prefix ''/'' path
      then (if prefix ''//'' path \<and> \<not> prefix ''///'' path then 2 else 1)
      else 0)"

definition norm_step :: "nat \<Rightarrow> string list \<Rightarrow> string \<Rightarrow> string list" where
  "norm_step slashes new_comps cmp =
     (if cmp = [] \<or> cmp = ''.'' then new_comps
      else if cmp \<noteq> ''..'' \<or> (slashes = 0 \<and> new_comps = [])
                \<or> (new_comps \<noteq> [] \<and> last new_comps = ''..'')
           then new_comps @ [cmp]
      else if new_comps \<noteq> [] then butlast new_comps
      else new_comps)"

definition norm_comps :: "string \<Rightarrow> string list" where
  "norm_comps path = foldl (norm_step (initial_slashes path)) [] (split_sep path)"

definition path_normpath :: "string \<Rightarrow> string" where
  "path_normpath path =
     (if path = [] then ''.''
      else let p = replicate (initial_slashes path) (CHR ''/'') @ str_join ''/'' (norm_comps path)
           in if p = [] then ''.'' else p)"

text \<open>\<^verbatim>\<open>posixpath.abspath\<close>, with the current directory of the process as a parameter.\<close>

definition path_abspath :: "string \<Rightarrow> string \<Rightarrow> string" where
  "path_abspath cwd path =
     path_normpath (if prefix ''/'' path then path else path_join cwd path)"

text \<open>\<^verbatim>\<open>genericpath.commonprefix\<close> of two component lists.\<close>

fun commonprefix :: "string list \<Rightarrow> string list \<Rightarrow> string list" where
  "commonprefix (x # xs) (y # ys) = (if x = y then x # commonprefix xs ys else [])"
| "commonprefix _ _ = []"

text \<open>\<^verbatim>\<open>posixpath.relpath(path, start)\<close>; it raises \<^verbatim>\<open>ValueError\<close> on the empty path.\<close>

definition path_relpath :: "string \<Rightarrow> string \<Rightarrow> string \<Rightarrow> py_error + string" where
  "path_relpath cwd path start =
     (if path = [] then Inl ValueError
      else let start_list = filter (\<lambda>x. x \<noteq> []) (split_sep (path_abspath cwd start));
               path_list = filter (\<lambda>x. x \<noteq> []) (split_sep (path_abspath cwd path));
               i = length (commonprefix start_list path_list);
               rel_list = replicate (length start_list - i) ''..'' @ drop i path_list
           in if rel_list = [] then Inr ''.'' else Inr (path_join_all rel_list))"

section \<open>The filesystem as the scripts observe it\<close>

text \<open>
  A snapshot of a directory subtree, entries in the order \<^verbatim>\<open>os.scandir\<close> lists them.
  \<open>Closed\<close> is a directory that \<^verbatim>\<open>os.walk\<close> reports among the directory names of its
  parent but does not enter, so that it yields nothing for it and for what is below it:
  a symbolic link to a directory (links are not followed) or a directory whose listing
  fails (the error is ignored).  Its entries are kept only to say what the walk leaves out.
\<close>

datatype node = File | Closed "(string \<times> node) list" | Dir "(string \<times> node) list"

fun is_dir :: "node \<Rightarrow> bool" where
  "is_dir File = False"
| "is_dir (Closed es) = True"
| "is_dir (Dir es) = True"

definition dirnames :: "(string \<times> node) list \<Rightarrow> string list" where
  "dirnames es = map fst (filter (\<lambda>e. is_dir (snd e)) es)"

definition nondirnames :: "(string \<times> node) list \<Rightarrow> string list" where
  "nondirnames es = map fst (filter (\<lambda>e. \<not> is_dir (snd e)) es)"

text \<open>
  \<^verbatim>\<open>os.walk(top)\<close>, top-down: the triple of a directory, then the walks of its
  subdirectories in listing order.  Walking a path that is not a directory yields nothing.
\<close>

fun os_walk :: "string \<Rightarrow> node \<Rightarrow> (string \<times> string list \<times> string list) list"
  and walk_entries :: "string \<Rightarrow> (string \<times> node) list \<Rightarrow> (string \<times> string list \<times> string list) list"
where
  "os_walk top' File = []"
| "os_walk top' (Closed es) = []"
| "os_walk top' (Dir es) = (top', dirnames es, nondirnames es) # walk_entries top' es"
| "walk_entries top' [] = []"
| "walk_entries top' (e # es) = os_walk (path_join top' (fst e)) (snd e) @ walk_entries top' es"

text \<open>
  What a path string resolves to for the running process; \<open>None\<close> when \<^verbatim>\<open>os.stat\<close>
  fails.  The empty path never resolves.
\<close>

type_synonym filesystem = "string \<Rightarrow> node option"

definition resolve :: "filesystem \<Rightarrow> string \<Rightarrow> node option" where
  "resolve fs p = (if p = [] then None else fs p)"

definition path_exists :: "filesystem \<Rightarrow> string \<Rightarrow> bool" where
  "path_exists fs p = (resolve fs p \<noteq> None)"

section \<open>tree.py\<close>

definition indent_glyph :: string where
  "indent_glyph = [CHR 0xE2, CHR 0x94, CHR 0x82] @ ''   ''"

definition branch_glyph :: string where
  "branch_glyph = [CHR 0xE2, CHR 0x94, CHR 0x9C, CHR 0xE2, CHR 0x94, CHR 0x80,
                   CHR 0xE2, CHR 0x94, CHR 0x80] @ '' ''"

text \<open>The string \<^verbatim>\<open>indent * n\<close>.\<close>

definition indent :: "nat \<Rightarrow> string" where
  "indent n = concat (replicate n indent_glyph)"

definition dir_line :: "string \<Rightarrow> string \<Rightarrow> string" where
  "dir_line relative_root root =
     (if relative_root = ''.'' then ''.'' @ os_sep
      else indent (count_sep relative_root) @ branch_glyph @ path_basename root @ os_sep)"

definition file_line :: "string \<Rightarrow> string \<Rightarrow> string" where
  "file_line relative_root file_name =
     indent (count_sep relative_root + 1) @ branch_glyph @ file_name"

text \<open>The inner loop over the files of one directory.\<close>

fun file_loop :: "string \<Rightarrow> string \<Rightarrow> string list \<Rightarrow> string list \<times> string list
    \<Rightarrow> string list \<times> string list" where
  "file_loop root relative_root [] (output_lines, found_files) = (output_lines, found_files)"
| "file_loop root relative_root (file_name # files) (output_lines, found_files) =
     file_loop root relative_root files
       (output_lines @ [file_line relative_root file_name],
        found_files @ [path_join root file_name])"

text \<open>The outer loop over the triples of the walk.\<close>

fun walk_loop :: "string \<Rightarrow> string \<Rightarrow> (string \<times> string list \<times> string list) list
    \<Rightarrow> string list \<times> string list \<Rightarrow> py_error + (string list \<times> string list)" where
  "walk_loop cwd start_path [] acc = Inr acc"
| "walk_loop cwd start_path ((root, dirs, files) # rest) (output_lines, found_files) =
     (case path_relpath cwd root start_path of
        Inl e \<Rightarrow> Inl e
      | Inr relative_root \<Rightarrow>
          walk_loop cwd start_path rest
            (file_loop root relative_root files
               (output_lines @ [dir_line relative_root root], found_files)))"

definition header_line :: "string \<Rightarrow> string \<Rightarrow> string" where
  "header_line cwd start_path =
     ''Scanning directory tree from: '' @ path_abspath cwd start_path @ newline"

definition summary_lines :: "string list \<Rightarrow> string list" where
  "summary_lines found_files =
     (if found_files \<noteq> []
      then [newline @ ''--- Summary: All Files Found (Full Paths) ---''] @ found_files
           @ [newline @ ''Total files found: '' @ str_nat (length found_files)]
      else [''No files found or an error occurred during scanning.''])"

definition error_text :: "string \<Rightarrow> string" where
  "error_text start_path =
     ''Error: The specified path does not exist: '' @ [CHR 0x27] @ start_path @ [CHR 0x27] @ newline"

text \<open>
  The list \<^verbatim>\<open>output_lines\<close> as it stands before the final join, with \<^verbatim>\<open>found_files\<close>,
  for a root that resolves to \<open>nd\<close>; \<open>Inl\<close> when the body raises.
\<close>

definition tree_lines :: "string \<Rightarrow> string \<Rightarrow> node \<Rightarrow> py_error + (string list \<times> string list)" where
  "tree_lines cwd start_path nd =
     (case walk_loop cwd start_path (os_walk start_path nd) ([header_line cwd start_path], []) of
        Inl e \<Rightarrow> Inl e
      | Inr (output_lines, found_files) \<Rightarrow>
          Inr (output_lines @ summary_lines found_files, found_files))"

definition generate_directory_tree_text ::
    "string \<Rightarrow> filesystem \<Rightarrow> string \<Rightarrow> py_error + (string \<times> string list)" where
  "generate_directory_tree_text cwd fs start_path =
     (case resolve fs start_path of
        None \<Rightarrow> Inr (error_text start_path, [])
      | Some nd \<Rightarrow>
          (case tree_lines cwd start_path nd of
             Inl e \<Rightarrow> Inl e
           | Inr (output_lines, found_files) \<Rightarrow>
               Inr (str_join newline output_lines, found_files)))"

section \<open>update\_imports.py\<close>

definition ROOT_DIR :: string where
  "ROOT_DIR = ''src''"

text \<open>
  The two keys of \<^verbatim>\<open>PATTERNS\<close> are regular expressions made of literal characters
  only (the escapes \<^verbatim>\<open>\/\<close> and \<^verbatim>\<open>\(\<close> stand for the characters themselves), and
  the replacements contain no backslash; each rule is a pair of literal strings.  The
  dictionary is iterated in insertion order.
\<close>

definition PATTERNS :: "(string \<times> string) list" where
  "PATTERNS =
     [(''from '' @ [CHR 0x27] @ ''@/'', ''from '' @ [CHR 0x27] @ ''#@/''),
      (''require('' @ [CHR 0x27] @ ''@/'', ''require('' @ [CHR 0x27] @ ''#@/'')]"

text \<open>
  \<^verbatim>\<open>re.sub(pat, repl, s)\<close> for a literal pattern: scanning from the left, every match is
  replaced and the scan goes on behind it.  (The empty pattern matches before every
  character and at the end.)
\<close>

function re_sub :: "string \<Rightarrow> string \<Rightarrow> string \<Rightarrow> string" where
  "re_sub pat repl s =
     (if s = [] then (if pat = [] then repl else [])
      else if pat = [] then repl @ hd s # re_sub pat repl (tl s)
      else if prefix pat s then repl @ re_sub pat repl (drop (length pat) s)
      else hd s # re_sub pat repl (tl s))"
  by pat_completeness auto
termination
  by (relation "measure (\<lambda>(pat, repl, s). length s)") auto

declare re_sub.simps [simp del]

text \<open>The loop over \<^verbatim>\<open>PATTERNS.items()\<close>.\<close>

fun apply_patterns :: "(string \<times> string) list \<Rightarrow> string \<Rightarrow> string" where
  "apply_patterns [] new_content = new_content"
| "apply_patterns ((old_path, new_path) # ps) new_content =
     apply_patterns ps (re_sub old_path new_path new_content)"

text \<open>
  The part of the world the script acts on.  A path names a file object (\<open>file_of\<close>,
  symbolic links followed): two hard links, or a link and its target, name the same
  object, so a write through one name is read through the other.  \<open>contents w x\<close> is what
  opening the object \<open>x\<close> for reading and reading it gives: \<open>Inr\<close> the decoded text, or
  \<open>Inl\<close> the message of the exception raised (a path that cannot be opened names an
  object whose read raises).  \<open>on_write w p\<close> is what writing through the path \<open>p\<close> does:
  it succeeds; or \<^verbatim>\<open>open(p, 'w')\<close> raises and the file is as before; or the open
  truncates the file and the write or the close raises, after which the file reads as
  the given value.  \<open>print_error w m\<close> is the message of the exception that printing the
  line \<open>m\<close> raises, if it does.  \<open>trace\<close> records, in order, each call of \<^verbatim>\<open>open\<close> and
  each line printed.
\<close>

type_synonym file_id = nat

datatype event = OpenRead string | OpenWrite string | Print string

datatype write_outcome = WriteOk | OpenFails string | WriteFails string "string + string"

record world =
  file_of :: "string \<Rightarrow> file_id"
  contents :: "file_id \<Rightarrow> string + string"
  on_write :: "string \<Rightarrow> write_outcome"
  print_error :: "string \<Rightarrow> string option"
  trace :: "event list"

definition emit :: "event \<Rightarrow> world \<Rightarrow> world" where
  "emit e w = w\<lparr>trace := trace w @ [e]\<rparr>"

text \<open>\<^verbatim>\<open>print(m)\<close>: the world it leaves, and the exception it raised, if any.\<close>

definition py_print :: "string \<Rightarrow> world \<Rightarrow> world \<times> string option" where
  "py_print m w =
     (case print_error w m of
        None \<Rightarrow> (emit (Print m) w, None)
      | Some e \<Rightarrow> (w, Some e))"

text \<open>The body of the \<^verbatim>\<open>try\<close>: the world it leaves, and the exception it raised, if any.\<close>

definition update_body :: "string \<Rightarrow> world \<Rightarrow> world \<times> string option" where
  "update_body file_path w =
     (let w1 = emit (OpenRead file_path) w in
      case contents w1 (file_of w1 file_path) of
        Inl e \<Rightarrow> (w1, Some e)
      | Inr content \<Rightarrow>
          (let new_content = apply_patterns PATTERNS content in
           if new_content \<noteq> content then
             (case py_print (''Updating file: '' @ file_path) w1 of
                (w2, Some e) \<Rightarrow> (w2, Some e)
              | (w2, None) \<Rightarrow>
                  (let w3 = emit (OpenWrite file_path) w2 in
                   case on_write w3 file_path of
                     OpenFails e \<Rightarrow> (w3, Some e)
                   | WriteFails e left \<Rightarrow>
                       (w3\<lparr>contents := (contents w3)(file_of w3 file_path := left)\<rparr>, Some e)
                   | WriteOk \<Rightarrow>
                       (w3\<lparr>contents := (contents w3)(file_of w3 file_path := Inr new_content)\<rparr>,
                        None)))
           else py_print (''No changes needed for: '' @ file_path) w1))"

text \<open>
  \<^verbatim>\<open>update_imports\<close>: an exception of the body is caught and reported; an exception
  raised by that report itself leaves the function.
\<close>

definition update_imports :: "string \<Rightarrow> world \<Rightarrow> world \<times> string option" where
  "update_imports file_path w =
     (case update_body file_path w of
        (w', None) \<Rightarrow> (w', None)
      | (w', Some e) \<Rightarrow> py_print (''Error processing '' @ file_path @ '': '' @ e) w')"

text \<open>The loop over the files of one directory, and the loop over the walk; an exception
  that leaves \<^verbatim>\<open>update_imports\<close> ends both.\<close>

fun js_loop :: "string \<Rightarrow> string list \<Rightarrow> world \<Rightarrow> world \<times> string option" where
  "js_loop root [] w = (w, None)"
| "js_loop root (file # files) w =
     (if suffix ''.js'' file then
        (case update_imports (path_join root file) w of
           (w', Some e) \<Rightarrow> (w', Some e)
         | (w', None) \<Rightarrow> js_loop root files w')
      else js_loop root files w)"

fun main_loop :: "(string \<times> string list \<times> string list) list \<Rightarrow> world \<Rightarrow> world \<times> string option" where
  "main_loop [] w = (w, None)"
| "main_loop ((root, dirs, files) # rest) w =
     (case js_loop root files w of
        (w', Some e) \<Rightarrow> (w', Some e)
      | (w', None) \<Rightarrow> main_loop rest w')"

text \<open>
  \<^verbatim>\<open>main\<close>.  The walk is lazy, but the script changes file contents only, never a
  directory listing, so the triples are those of the tree at the start.
\<close>

definition main :: "filesystem \<Rightarrow> world \<Rightarrow> world \<times> string option" where
  "main fs w =
     (case resolve fs ROOT_DIR of
        None \<Rightarrow>
          py_print (''Error: The directory '' @ [CHR 0x27] @ ROOT_DIR @ [CHR 0x27]
                      @ '' does not exist.'') w
      | Some nd \<Rightarrow>
          if \<not> is_dir nd then
            py_print (''Error: The directory '' @ [CHR 0x27] @ ROOT_DIR @ [CHR 0x27]
                        @ '' does not exist.'') w
          else
            (case main_loop (os_walk ROOT_DIR nd) w of
               (w', Some e) \<Rightarrow> (w', Some e)
             | (w', None) \<Rightarrow>
                 py_print (newline @ ''Import update process completed. Please run your server again.'') w'))"

section \<open>Notions used to state the properties\<close>

text \<open>The files in the order the traversal visits them, each with the directory it is in.\<close>

definition visited_files :: "(string \<times> string list \<times> string list) list \<Rightarrow> (string \<times> string) list" where
  "visited_files items = concat (map (\<lambda>(root, dirs, files). map (Pair root) files) items)"

text \<open>The relative path the loop body computes for a directory of the walk.\<close>

definition relative_of :: "string \<Rightarrow> string \<Rightarrow> string \<Rightarrow> string" where
  "relative_of cwd start_path root =
     (case path_relpath cwd root start_path of Inr r \<Rightarrow> r | Inl e \<Rightarrow> [])"

text \<open>The lines one iteration of the outer loop appends: the directory's line, then the
  file-entry lines, one for each of its files.\<close>

definition file_entry_lines :: "string \<Rightarrow> string \<Rightarrow> string \<times> string list \<times> string list \<Rightarrow> string list" where
  "file_entry_lines cwd start_path item =
     (case item of (root, dirs, files) \<Rightarrow>
        map (file_line (relative_of cwd start_path root)) files)"

definition entry_lines :: "string \<Rightarrow> string \<Rightarrow> string \<times> string list \<times> string list \<Rightarrow> string list" where
  "entry_lines cwd start_path item =
     (case item of (root, dirs, files) \<Rightarrow>
        dir_line (relative_of cwd start_path root) root
          # file_entry_lines cwd start_path item)"

text \<open>
  \<open>at_chain nd ns x\<close>: following the entry names \<open>ns\<close> downwards from the directory
  \<open>nd\<close>, through directories that the walk enters, leads to the node \<open>x\<close>;
  \<open>chain_path top ns\<close> is the path string of that node when \<open>nd\<close> is at \<open>top\<close>.
\<close>

inductive at_chain :: "node \<Rightarrow> string list \<Rightarrow> node \<Rightarrow> bool" where
  here: "at_chain nd [] nd"
| step: "(n, sub) \<in> set es \<Longrightarrow> at_chain sub ns x \<Longrightarrow> at_chain (Dir es) (n # ns) x"

code_pred at_chain .

definition chain_path :: "string \<Rightarrow> string list \<Rightarrow> string" where
  "chain_path top' ns = foldl path_join top' ns"


text \<open>The paths \<^verbatim>\<open>main\<close> hands to \<^verbatim>\<open>update_imports\<close>, in order.\<close>

definition js_paths :: "(string \<times> string list \<times> string list) list \<Rightarrow> string list" where
  "js_paths items =
     concat (map (\<lambda>(root, dirs, files). map (path_join root) (filter (suffix ''.js'') files)) items)"

text \<open>The paths opened for reading, in order.\<close>

fun reads_of :: "event list \<Rightarrow> string list" where
  "reads_of [] = []"
| "reads_of (OpenRead p # evs) = p # reads_of evs"
| "reads_of (OpenWrite p # evs) = reads_of evs"
| "reads_of (Print m # evs) = reads_of evs"

text \<open>
  \<open>below nd ns x\<close>: the names \<open>ns\<close> lead from \<open>nd\<close> to \<open>x\<close> through directories of any
  kind, also those the walk does not enter.
\<close>

inductive below :: "node \<Rightarrow> string list \<Rightarrow> node \<Rightarrow> bool" where
  here: "below nd [] nd"
| in_dir: "(n, sub) \<in> set es \<Longrightarrow> below sub ns x \<Longrightarrow> below (Dir es) (n # ns) x"
| in_closed: "(n, sub) \<in> set es \<Longrightarrow> below sub ns x \<Longrightarrow> below (Closed es) (n # ns) x"

code_pred below .

text \<open>The value in decimal of a string of digits.\<close>

definition digit_value :: "char \<Rightarrow> nat" where
  "digit_value c = of_char c - 48"

definition decimal_value :: "string \<Rightarrow> nat" where
  "decimal_value s = foldl (\<lambda>a c. 10 * a + digit_value c) 0 s"

text \<open>What an object reads as once the rewrite has been written to it.\<close>

definition rewrite_of :: "string + string \<Rightarrow> string + string" where
  "rewrite_of v = (case v of Inl e \<Rightarrow> Inl e | Inr c \<Rightarrow> Inr (apply_patterns PATTERNS c))"

text \<open>The exception message a failing write carries.\<close>

fun write_failure :: "write_outcome \<Rightarrow> string option" where
  "write_failure WriteOk = None"
| "write_failure (OpenFails e) = Some e"
| "write_failure (WriteFails e left) = Some e"

definition error_message :: "string \<Rightarrow> string \<Rightarrow> string" where
  "error_message file_path e = ''Error processing '' @ file_path @ '': '' @ e"

text \<open>\<open>occurs q s\<close>: the string \<open>q\<close> occurs in \<open>s\<close> at some position.\<close>

fun occurs :: "string \<Rightarrow> string \<Rightarrow> bool" where
  "occurs q [] = (q = [])"
| "occurs q (c # cs) = (prefix q (c # cs) \<or> occurs q cs)"

text \<open>\<open>no_overlap q r\<close>: no non-empty end piece of \<open>q\<close> is a prefix of \<open>r\<close> or has
  \<open>r\<close> as a prefix.\<close>

fun no_overlap :: "string \<Rightarrow> string \<Rightarrow> bool" where
  "no_overlap [] r = True"
| "no_overlap (a # q) r = (\<not> prefix (a # q) r \<and> \<not> prefix r (a # q) \<and> no_overlap q r)"

section \<open>Lemmas on the loops of tree.py\<close>

lemma file_loop_eq:
  "file_loop root rel files (out, found) =
     (out @ map (file_line rel) files, found @ map (path_join root) files)"
  by (induction files arbitrary: out found) auto

lemma path_join_nonempty: "a \<noteq> [] \<Longrightarrow> path_join a b \<noteq> []"
  by (auto simp: path_join_def)

lemma walk_roots_nonempty:
  "(t \<noteq> [] \<longrightarrow> (\<forall>item \<in> set (os_walk t nd). fst item \<noteq> []))"
  "(t \<noteq> [] \<longrightarrow> (\<forall>item \<in> set (walk_entries t es). fst item \<noteq> []))"
  by (induction t nd and t es rule: os_walk_walk_entries.induct)
     (auto simp: path_join_nonempty)

lemma relpath_total:
  "root \<noteq> [] \<Longrightarrow> path_relpath cwd root start = Inr (relative_of cwd start root)"
  by (simp add: relative_of_def path_relpath_def Let_def)

lemma walk_loop_eq:
  "\<forall>item \<in> set items. fst item \<noteq> [] \<Longrightarrow>
   walk_loop cwd start items (out, found) =
     Inr (out @ concat (map (entry_lines cwd start) items),
          found @ map (\<lambda>(root, f). path_join root f) (visited_files items))"
proof (induction items arbitrary: out found)
  case Nil
  then show ?case by (simp add: visited_files_def)
next
  case (Cons item items)
  obtain root dirs files where item: "item = (root, dirs, files)" by (cases item)
  from Cons.prems have r: "root \<noteq> []" and rest: "\<forall>i \<in> set items. fst i \<noteq> []"
    by (auto simp: item)
  show ?case
    using Cons.IH [OF rest]
    by (simp add: item relpath_total [OF r] file_loop_eq entry_lines_def file_entry_lines_def visited_files_def comp_def)
qed

lemma resolve_nonempty: "resolve fs p = Some nd \<Longrightarrow> p \<noteq> []"
  by (auto simp: resolve_def split: if_splits)

lemma tree_lines_eq:
  "start \<noteq> [] \<Longrightarrow>
   tree_lines cwd start nd =
     Inr ((header_line cwd start # concat (map (entry_lines cwd start) (os_walk start nd)))
            @ summary_lines (map (\<lambda>(root, f). path_join root f) (visited_files (os_walk start nd))),
          map (\<lambda>(root, f). path_join root f) (visited_files (os_walk start nd)))"
  using walk_roots_nonempty(1) [of start nd]
  by (simp add: tree_lines_def walk_loop_eq)



lemma str_join_append:
  "xs \<noteq> [] \<Longrightarrow> ys \<noteq> [] \<Longrightarrow> str_join d (xs @ ys) = str_join d xs @ d @ str_join d ys"
  by (induction d xs rule: str_join.induct) (auto simp: neq_Nil_conv)


lemma generate_eq:
  "resolve fs start_path = Some nd \<Longrightarrow>
   generate_directory_tree_text cwd fs start_path =
     Inr (str_join newline
            ((header_line cwd start_path
                # concat (map (entry_lines cwd start_path) (os_walk start_path nd)))
             @ summary_lines (map (\<lambda>(root, f). path_join root f)
                                (visited_files (os_walk start_path nd)))),
          map (\<lambda>(root, f). path_join root f) (visited_files (os_walk start_path nd)))"
  using tree_lines_eq [OF resolve_nonempty, of fs start_path nd cwd nd]
  by (simp add: generate_directory_tree_text_def)

lemma file_entry_lines_visited:
  "concat (map (file_entry_lines cwd start) items) =
     map (\<lambda>(root, f). file_line (relative_of cwd start root) f) (visited_files items)"
  by (induction items) (auto simp: visited_files_def file_entry_lines_def comp_def)

text \<open>A run on a small tree: a file and a subdirectory holding one file.\<close>

lemma tree_lines_example:
  "tree_lines ''/home'' ''proj'' (Dir [(''a.txt'', File), (''sub'', Dir [(''b.txt'', File)])]) =
       Inr ([''Scanning directory tree from: /home/proj'' @ newline,
             ''./'',
             indent 1 @ branch_glyph @ ''a.txt'',
             indent 0 @ branch_glyph @ ''sub/'',
             indent 1 @ branch_glyph @ ''b.txt'',
             newline @ ''--- Summary: All Files Found (Full Paths) ---'',
             ''proj/a.txt'', ''proj/sub/b.txt'',
             newline @ ''Total files found: 2''],
            [''proj/a.txt'', ''proj/sub/b.txt''])"
  by code_simp

section \<open>Lemmas on name chains and the walk\<close>

lemma at_chain_append:
  "at_chain nd ms x \<Longrightarrow> at_chain x ks y \<Longrightarrow> at_chain nd (ms @ ks) y"
  by (induction rule: at_chain.induct) (auto intro: at_chain.intros)

inductive_cases at_chain_NilE: "at_chain nd [] x"
inductive_cases at_chain_ConsE: "at_chain nd (n # ns) x"

lemma at_chain_snocD:
  "at_chain nd (ms @ [f]) y \<Longrightarrow> \<exists>es. at_chain nd ms (Dir es) \<and> (f, y) \<in> set es"
proof (induction ms arbitrary: nd)
  case Nil
  then show ?case by (auto elim!: at_chain_ConsE at_chain_NilE intro: at_chain.intros)
next
  case (Cons m ms)
  from Cons.prems obtain es sub where nd: "nd = Dir es" and m: "(m, sub) \<in> set es"
    and sub: "at_chain sub (ms @ [f]) y"
    by (auto elim: at_chain_ConsE)
  from Cons.IH [OF sub] obtain es' where "at_chain sub ms (Dir es')" "(f, y) \<in> set es'" by blast
  then show ?case using nd m by (auto intro: at_chain.intros)
qed

lemma walk_entries_mem:
  "(n, sub) \<in> set es \<Longrightarrow> set (os_walk (path_join t n) sub) \<subseteq> set (walk_entries t es)"
  by (induction es) auto

lemma chain_walk_item:
  "at_chain nd ns x \<Longrightarrow> x = Dir es \<Longrightarrow>
     (chain_path t ns, dirnames es, nondirnames es) \<in> set (os_walk t nd)"
proof (induction arbitrary: t rule: at_chain.induct)
  case (here nd)
  then show ?case by (simp add: chain_path_def)
next
  case (step n sub es' ns x)
  have "(chain_path (path_join t n) ns, dirnames es, nondirnames es) \<in> set (os_walk (path_join t n) sub)"
    using step.IH step.prems by blast
  then show ?case
    using walk_entries_mem [OF step.hyps(1), of t] by (auto simp: chain_path_def)
qed

lemma walk_item_chain:
  "\<forall>item \<in> set (os_walk t nd). \<exists>ns es. fst item = chain_path t ns \<and> at_chain nd ns (Dir es)
       \<and> snd item = (dirnames es, nondirnames es)"
  "\<forall>item \<in> set (walk_entries t es0). \<exists>n sub ns es. (n, sub) \<in> set es0
       \<and> fst item = chain_path (path_join t n) ns \<and> at_chain sub ns (Dir es)
       \<and> snd item = (dirnames es, nondirnames es)"
proof (induction t nd and t es0 rule: os_walk_walk_entries.induct)
  case (1 t)
  then show ?case by simp
next
  case (2 t)
  then show ?case by simp
next
  case (3 t es)
  show ?case
  proof
    fix item assume "item \<in> set (os_walk t (Dir es))"
    then consider "item = (t, dirnames es, nondirnames es)" | "item \<in> set (walk_entries t es)"
      by auto
    then show "\<exists>ns es'. fst item = chain_path t ns \<and> at_chain (Dir es) ns (Dir es')
       \<and> snd item = (dirnames es', nondirnames es')"
    proof cases
      case 1
      then have "fst item = chain_path t [] \<and> at_chain (Dir es) [] (Dir es)
          \<and> snd item = (dirnames es, nondirnames es)"
        by (simp add: chain_path_def at_chain.here)
      then show ?thesis by blast
    next
      case 2
      with 3 obtain n sub ns es' where "(n, sub) \<in> set es"
        "fst item = chain_path (path_join t n) ns" "at_chain sub ns (Dir es')"
        "snd item = (dirnames es', nondirnames es')" by blast
      then have "fst item = chain_path t (n # ns) \<and> at_chain (Dir es) (n # ns) (Dir es')
          \<and> snd item = (dirnames es', nondirnames es')"
        by (simp add: chain_path_def at_chain.step)
      then show ?thesis by blast
    qed
  qed
next
  case (4 t)
  then show ?case by simp
next
  case (5 t e es)
  show ?case
  proof
    fix item assume "item \<in> set (walk_entries t (e # es))"
    then consider "item \<in> set (os_walk (path_join t (fst e)) (snd e))" | "item \<in> set (walk_entries t es)"
      by auto
    then show "\<exists>n sub ns es'. (n, sub) \<in> set (e # es)
       \<and> fst item = chain_path (path_join t n) ns \<and> at_chain sub ns (Dir es')
       \<and> snd item = (dirnames es', nondirnames es')"
    proof cases
      case 1
      with 5(1) obtain ns es' where "fst item = chain_path (path_join t (fst e)) ns"
        "at_chain (snd e) ns (Dir es')" "snd item = (dirnames es', nondirnames es')" by blast
      moreover have "(fst e, snd e) \<in> set (e # es)" by simp
      ultimately show ?thesis by blast
    next
      case 2
      with 5(2) obtain n sub ns es' where "(n, sub) \<in> set es"
        "fst item = chain_path (path_join t n) ns" "at_chain sub ns (Dir es')"
        "snd item = (dirnames es', nondirnames es')" by blast
      then show ?thesis by (metis list.set_intros(2))
    qed
  qed
qed

lemma nondirnames_iff: "f \<in> set (nondirnames es) \<longleftrightarrow> (f, File) \<in> set es"
proof -
  have "\<And>x. \<not> is_dir x \<longleftrightarrow> x = File" by (case_tac x) auto
  then show ?thesis by (force simp: nondirnames_def)
qed

lemma chain_path_snoc: "chain_path t (ns @ [f]) = path_join (chain_path t ns) f"
  by (simp add: chain_path_def)

lemma js_paths_set:
  "set (js_paths (os_walk t nd)) =
     {chain_path t ns | ns. ns \<noteq> [] \<and> at_chain nd ns File \<and> suffix ''.js'' (last ns)}"
proof (intro set_eqI iffI)
  fix p assume "p \<in> set (js_paths (os_walk t nd))"
  then obtain root dirs files f where item: "(root, dirs, files) \<in> set (os_walk t nd)"
    and f: "f \<in> set files" "suffix ''.js'' f" and p: "p = path_join root f"
    by (auto simp: js_paths_def)
  from walk_item_chain(1) [of t nd] item obtain ns es where
    "root = chain_path t ns" "at_chain nd ns (Dir es)" "files = nondirnames es"
    by fastforce
  then have "at_chain nd (ns @ [f]) File" "p = chain_path t (ns @ [f])"
    using f(1) p by (auto simp: nondirnames_iff chain_path_snoc intro: at_chain_append at_chain.intros)
  then show "p \<in> {chain_path t ns | ns. ns \<noteq> [] \<and> at_chain nd ns File \<and> suffix ''.js'' (last ns)}"
    using f(2) by force
next
  fix p assume "p \<in> {chain_path t ns | ns. ns \<noteq> [] \<and> at_chain nd ns File \<and> suffix ''.js'' (last ns)}"
  then obtain ns where ns: "p = chain_path t ns" "ns \<noteq> []" "at_chain nd ns File" "suffix ''.js'' (last ns)"
    by blast
  then obtain ms f where s: "ns = ms @ [f]" by (metis rev_exhaust)
  with ns(3) obtain es where es: "at_chain nd ms (Dir es)" "(f, File) \<in> set es"
    using at_chain_snocD by blast
  have "(chain_path t ms, dirnames es, nondirnames es) \<in> set (os_walk t nd)"
    using chain_walk_item [OF es(1)] by simp
  moreover have "f \<in> set (nondirnames es)" using es(2) by (simp add: nondirnames_iff)
  moreover have "suffix ''.js'' f" using ns(4) s by simp
  ultimately show "p \<in> set (js_paths (os_walk t nd))"
    unfolding js_paths_def ns(1) s chain_path_snoc by force
qed

section \<open>Lemmas on paths\<close>







































section \<open>Lemmas on the decimal numeral\<close>

lemma digit_value_digit_char: "d < 10 \<Longrightarrow> digit_value (digit_char d) = d"
proof -
  assume "d < 10"
  then have "d = 0 \<or> d = 1 \<or> d = 2 \<or> d = 3 \<or> d = 4 \<or> d = 5 \<or> d = 6 \<or> d = 7 \<or> d = 8 \<or> d = 9"
    by arith
  then show ?thesis
    by (elim disjE) (simp_all add: digit_char_def digit_value_def)
qed

lemma digit_char_digit: "d < 10 \<Longrightarrow> digit_char d \<in> set ''0123456789''"
  unfolding digit_char_def by (rule nth_mem) simp

lemma decimal_value_snoc: "decimal_value (s @ [c]) = 10 * decimal_value s + digit_value c"
  by (simp add: decimal_value_def)

lemma decimal_value_str_nat: "decimal_value (str_nat n) = n"
proof (induction n rule: str_nat.induct)
  case (1 n)
  show ?case
  proof (cases "n < 10")
    case True
    then show ?thesis
      by (subst str_nat.simps) (simp add: decimal_value_def digit_value_digit_char)
  next
    case False
    have "decimal_value (str_nat n) = 10 * decimal_value (str_nat (n div 10)) + digit_value (digit_char (n mod 10))"
      using False by (subst str_nat.simps) (simp add: decimal_value_snoc)
    also have "\<dots> = 10 * (n div 10) + n mod 10"
      using "1.IH" [OF False] by (simp add: digit_value_digit_char)
    also have "\<dots> = n" by simp
    finally show ?thesis .
  qed
qed

lemma str_nat_digits: "set (str_nat n) \<subseteq> set ''0123456789''"
proof (induction n rule: str_nat.induct)
  case (1 n)
  show ?case
  proof (cases "n < 10")
    case True
    then show ?thesis
      using digit_char_digit [of n] by (subst str_nat.simps) simp
  next
    case False
    have "n mod 10 < 10" by simp
    then have "digit_char (n mod 10) \<in> set ''0123456789''" by (rule digit_char_digit)
    then show ?thesis
      using "1.IH" [OF False] False by (subst str_nat.simps) simp
  qed
qed

section \<open>Properties of tree.py\<close>




text \<open>
  C2.  For every root path that does not exist, the function returns (it does not raise)
  the error text built around the literal root string, and an empty file list.
\<close>

theorem nonexistent_root_sentinel:
  "\<not> path_exists fs start_path \<Longrightarrow>
     generate_directory_tree_text cwd fs start_path =
       Inr (''Error: The specified path does not exist: '' @ [CHR 0x27] @ start_path
              @ [CHR 0x27] @ [CHR 0x0A], [])"
  by (simp add: generate_directory_tree_text_def path_exists_def error_text_def newline_def)

theorem nonexistent_root_sentinel_witness:
  "\<not> path_exists (\<lambda>p. None) ''nowhere'' \<and>
   generate_directory_tree_text ''/home'' (\<lambda>p. None) ''nowhere'' =
     Inr (''Error: The specified path does not exist: '' @ [CHR 0x27] @ ''nowhere''
            @ [CHR 0x27] @ [CHR 0x0A], [])"
  using nonexistent_root_sentinel [of "\<lambda>p. None" "''nowhere''" "''/home''"]
  by (simp add: path_exists_def resolve_def)

text \<open>
  C3.  For every existing root the function returns; the report is the header, then for
  each directory of the walk its line followed by its file-entry lines, then the summary.
  The returned file list and the file-entry lines are both images, in order, of the
  sequence of files as the traversal visits them, so the list is as long as the number of
  file-entry lines appended and is in visitation order.
\<close>

theorem found_files_match_file_lines:
  "resolve fs start_path = Some nd \<Longrightarrow>
   (let items = os_walk start_path nd;
        found_files = map (\<lambda>(root, f). path_join root f) (visited_files items)
    in generate_directory_tree_text cwd fs start_path =
         Inr (str_join newline
                ((header_line cwd start_path # concat (map (entry_lines cwd start_path) items))
                   @ summary_lines found_files), found_files)
       \<and> tree_lines cwd start_path nd =
         Inr ((header_line cwd start_path # concat (map (entry_lines cwd start_path) items))
                @ summary_lines found_files, found_files)
       \<and> concat (map (file_entry_lines cwd start_path) items) =
           map (\<lambda>(root, f). file_line (relative_of cwd start_path root) f) (visited_files items)
       \<and> length found_files = length (concat (map (file_entry_lines cwd start_path) items)))"
  using tree_lines_eq [OF resolve_nonempty, of fs start_path nd cwd nd]
    generate_eq [of fs start_path nd cwd]
  by (simp add: Let_def file_entry_lines_visited)

theorem found_files_match_file_lines_witness:
  "resolve (\<lambda>p. if p = ''proj'' then Some (Dir [(''a.txt'', File), (''sub'', Dir [(''b.txt'', File)])]) else None) ''proj''
     = Some (Dir [(''a.txt'', File), (''sub'', Dir [(''b.txt'', File)])])
   \<and> (let items = os_walk ''proj'' (Dir [(''a.txt'', File), (''sub'', Dir [(''b.txt'', File)])]);
        found_files = map (\<lambda>(root, f). path_join root f) (visited_files items)
    in generate_directory_tree_text ''/home'' (\<lambda>p. if p = ''proj'' then Some (Dir [(''a.txt'', File), (''sub'', Dir [(''b.txt'', File)])]) else None) ''proj'' =
         Inr (str_join newline
                ((header_line ''/home'' ''proj'' # concat (map (entry_lines ''/home'' ''proj'') items))
                   @ summary_lines found_files), found_files)
       \<and> tree_lines ''/home'' ''proj'' (Dir [(''a.txt'', File), (''sub'', Dir [(''b.txt'', File)])]) =
         Inr ((header_line ''/home'' ''proj'' # concat (map (entry_lines ''/home'' ''proj'') items))
                @ summary_lines found_files, found_files)
       \<and> concat (map (file_entry_lines ''/home'' ''proj'') items) =
           map (\<lambda>(root, f). file_line (relative_of ''/home'' ''proj'' root) f) (visited_files items)
       \<and> length found_files = length (concat (map (file_entry_lines ''/home'' ''proj'') items)))"
proof -
  have r: "resolve (\<lambda>p. if p = ''proj'' then Some (Dir [(''a.txt'', File), (''sub'', Dir [(''b.txt'', File)])]) else None) ''proj''
     = Some (Dir [(''a.txt'', File), (''sub'', Dir [(''b.txt'', File)])])"
    by (simp add: resolve_def)
  show ?thesis
    using found_files_match_file_lines [OF r, of "''/home''"] r
    by blast
qed





text \<open>
  C6.  For every existing root the report is the traversal part, a newline, and then: when
  the file list is not empty, the summary header line, every collected path on a line of
  its own, and the count line \<^verbatim>\<open>Total files found: n\<close>, where \<open>n\<close> is written as the
  decimal digits of the length of the list; when it is empty, the single explanatory line.
\<close>

theorem report_summary_block:
  "resolve fs start_path = Some nd \<Longrightarrow>
   (let items = os_walk start_path nd;
        found_files = map (\<lambda>(root, f). path_join root f) (visited_files items);
        traversal = str_join newline
                      (header_line cwd start_path # concat (map (entry_lines cwd start_path) items))
    in generate_directory_tree_text cwd fs start_path =
         Inr (if found_files \<noteq> []
              then traversal @ newline
                     @ str_join newline
                         ([newline @ ''--- Summary: All Files Found (Full Paths) ---'']
                          @ found_files
                          @ [newline @ ''Total files found: '' @ str_nat (length found_files)])
              else traversal @ newline
                     @ ''No files found or an error occurred during scanning.'',
              found_files)
       \<and> decimal_value (str_nat (length found_files)) = length found_files
       \<and> str_nat (length found_files) \<noteq> []
       \<and> set (str_nat (length found_files)) \<subseteq> set ''0123456789'')"
proof -
  assume a: "resolve fs start_path = Some nd"
  define found where
    "found = map (\<lambda>(root, f). path_join root f) (visited_files (os_walk start_path nd))"
  define pre where
    "pre = header_line cwd start_path
             # concat (map (entry_lines cwd start_path) (os_walk start_path nd))"
  have g: "generate_directory_tree_text cwd fs start_path =
             Inr (str_join newline (pre @ summary_lines found), found)"
    using generate_eq [OF a, of cwd] by (simp add: found_def pre_def)
  have "pre \<noteq> []" and "summary_lines found \<noteq> []"
    by (simp_all add: pre_def summary_lines_def)
  then have j: "str_join newline (pre @ summary_lines found) =
                  str_join newline pre @ newline @ str_join newline (summary_lines found)"
    by (rule str_join_append)
  have 1: "generate_directory_tree_text cwd fs start_path =
         Inr (if found \<noteq> []
              then str_join newline pre @ newline
                     @ str_join newline
                         ([newline @ ''--- Summary: All Files Found (Full Paths) ---'']
                          @ found
                          @ [newline @ ''Total files found: '' @ str_nat (length found)])
              else str_join newline pre @ newline
                     @ ''No files found or an error occurred during scanning.'',
              found)"
    unfolding g j by (simp add: summary_lines_def)
  have 2: "decimal_value (str_nat (length found)) = length found"
    by (rule decimal_value_str_nat)
  have 3: "str_nat (length found) \<noteq> []"
    by (subst str_nat.simps) simp
  have 4: "set (str_nat (length found)) \<subseteq> set ''0123456789''"
    by (rule str_nat_digits)
  show ?thesis
    unfolding Let_def found_def [symmetric] pre_def [symmetric]
    using 1 2 3 4 by blast
qed

theorem report_summary_block_witness:
  "resolve (\<lambda>p. if p = ''proj'' then Some (Dir [(''a.txt'', File), (''sub'', Dir [(''b.txt'', File)])]) else None) ''proj'' = Some (Dir [(''a.txt'', File), (''sub'', Dir [(''b.txt'', File)])])
   \<and> (let items = os_walk ''proj'' (Dir [(''a.txt'', File), (''sub'', Dir [(''b.txt'', File)])]);
        found_files = map (\<lambda>(root, f). path_join root f) (visited_files items);
        traversal = str_join newline
                      (header_line ''/home'' ''proj'' # concat (map (entry_lines ''/home'' ''proj'') items))
    in generate_directory_tree_text ''/home'' (\<lambda>p. if p = ''proj'' then Some (Dir [(''a.txt'', File), (''sub'', Dir [(''b.txt'', File)])]) else None) ''proj'' =
         Inr (if found_files \<noteq> []
              then traversal @ newline
                     @ str_join newline
                         ([newline @ ''--- Summary: All Files Found (Full Paths) ---'']
                          @ found_files
                          @ [newline @ ''Total files found: '' @ str_nat (length found_files)])
              else traversal @ newline
                     @ ''No files found or an error occurred during scanning.'',
              found_files)
       \<and> decimal_value (str_nat (length found_files)) = length found_files
       \<and> str_nat (length found_files) \<noteq> []
       \<and> set (str_nat (length found_files)) \<subseteq> set ''0123456789'')
   \<and> generate_directory_tree_text ''/home'' (\<lambda>p. if p = ''proj'' then Some (Dir [(''a.txt'', File), (''sub'', Dir [(''b.txt'', File)])]) else None) ''proj'' =
       Inr (''Scanning directory tree from: /home/proj'' @ [CHR 0x0A, CHR 0x0A]
            @ ''./'' @ [CHR 0x0A]
            @ [CHR 0xE2, CHR 0x94, CHR 0x82] @ ''   ''
            @ [CHR 0xE2, CHR 0x94, CHR 0x9C, CHR 0xE2, CHR 0x94, CHR 0x80, CHR 0xE2, CHR 0x94, CHR 0x80]
            @ '' a.txt'' @ [CHR 0x0A]
            @ [CHR 0xE2, CHR 0x94, CHR 0x9C, CHR 0xE2, CHR 0x94, CHR 0x80, CHR 0xE2, CHR 0x94, CHR 0x80]
            @ '' sub/'' @ [CHR 0x0A]
            @ [CHR 0xE2, CHR 0x94, CHR 0x82] @ ''   ''
            @ [CHR 0xE2, CHR 0x94, CHR 0x9C, CHR 0xE2, CHR 0x94, CHR 0x80, CHR 0xE2, CHR 0x94, CHR 0x80]
            @ '' b.txt'' @ [CHR 0x0A, CHR 0x0A]
            @ ''--- Summary: All Files Found (Full Paths) ---'' @ [CHR 0x0A]
            @ ''proj/a.txt'' @ [CHR 0x0A]
            @ ''proj/sub/b.txt'' @ [CHR 0x0A, CHR 0x0A]
            @ ''Total files found: 2'',
            [''proj/a.txt'', ''proj/sub/b.txt''])"
proof -
  have r: "resolve (\<lambda>p. if p = ''proj'' then Some (Dir [(''a.txt'', File), (''sub'', Dir [(''b.txt'', File)])]) else None) ''proj'' = Some (Dir [(''a.txt'', File), (''sub'', Dir [(''b.txt'', File)])])"
    by (simp add: resolve_def)
  have e: "generate_directory_tree_text ''/home'' (\<lambda>p. if p = ''proj'' then Some (Dir [(''a.txt'', File), (''sub'', Dir [(''b.txt'', File)])]) else None) ''proj'' =
       Inr (''Scanning directory tree from: /home/proj'' @ [CHR 0x0A, CHR 0x0A]
            @ ''./'' @ [CHR 0x0A]
            @ [CHR 0xE2, CHR 0x94, CHR 0x82] @ ''   ''
            @ [CHR 0xE2, CHR 0x94, CHR 0x9C, CHR 0xE2, CHR 0x94, CHR 0x80, CHR 0xE2, CHR 0x94, CHR 0x80]
            @ '' a.txt'' @ [CHR 0x0A]
            @ [CHR 0xE2, CHR 0x94, CHR 0x9C, CHR 0xE2, CHR 0x94, CHR 0x80, CHR 0xE2, CHR 0x94, CHR 0x80]
            @ '' sub/'' @ [CHR 0x0A]
            @ [CHR 0xE2, CHR 0x94, CHR 0x82] @ ''   ''
            @ [CHR 0xE2, CHR 0x94, CHR 0x9C, CHR 0xE2, CHR 0x94, CHR 0x80, CHR 0xE2, CHR 0x94, CHR 0x80]
            @ '' b.txt'' @ [CHR 0x0A, CHR 0x0A]
            @ ''--- Summary: All Files Found (Full Paths) ---'' @ [CHR 0x0A]
            @ ''proj/a.txt'' @ [CHR 0x0A]
            @ ''proj/sub/b.txt'' @ [CHR 0x0A, CHR 0x0A]
            @ ''Total files found: 2'',
            [''proj/a.txt'', ''proj/sub/b.txt''])"
    by code_simp
  show ?thesis
    by (intro conjI) (rule r, rule report_summary_block [OF r], rule e)
qed

section \<open>Lemmas on the substitution\<close>

text \<open>
  Three facts carry the argument.  A prefix of the rewritten string that cannot overlap
  the replacement is already a prefix of the original; hence an occurrence of such a
  string in the rewritten text is an occurrence in the original, and the pattern itself
  does not occur in the rewritten text at all.  A text without an occurrence of the
  pattern is left as it is.
\<close>

lemma re_sub_Nil: "pat \<noteq> [] \<Longrightarrow> re_sub pat r [] = []"
  by (simp add: re_sub.simps)

lemma re_sub_match:
  "pat \<noteq> [] \<Longrightarrow> prefix pat (c # cs) \<Longrightarrow>
     re_sub pat r (c # cs) = r @ re_sub pat r (drop (length pat) (c # cs))"
  by (subst re_sub.simps) simp

lemma re_sub_skip:
  "pat \<noteq> [] \<Longrightarrow> \<not> prefix pat (c # cs) \<Longrightarrow> re_sub pat r (c # cs) = c # re_sub pat r cs"
  by (subst re_sub.simps) simp

lemma prefix_append_cases:
  "prefix q (r @ y) \<Longrightarrow> prefix q r \<or> prefix r q"
  by (auto simp: prefix_def append_eq_append_conv2)

lemma prefix_re_sub:
  "pat \<noteq> [] \<Longrightarrow> no_overlap q r \<Longrightarrow> prefix q (re_sub pat r s) \<Longrightarrow> prefix q s"
proof (induction q arbitrary: s)
  case Nil
  then show ?case by simp
next
  case (Cons a q)
  show ?case
  proof (cases s)
    case Nil
    with Cons.prems show ?thesis by (simp add: re_sub_Nil)
  next
    case (Cons c cs)
    show ?thesis
    proof (cases "prefix pat (c # cs)")
      case True
      with Cons.prems(1,3) have "prefix (a # q) (r @ re_sub pat r (drop (length pat) (c # cs)))"
        by (simp add: \<open>s = c # cs\<close> re_sub_match)
      then have "prefix (a # q) r \<or> prefix r (a # q)" by (rule prefix_append_cases)
      with Cons.prems(2) show ?thesis by simp
    next
      case False
      with Cons.prems(1,3) have "prefix (a # q) (c # re_sub pat r cs)"
        by (simp add: \<open>s = c # cs\<close> re_sub_skip)
      then have "a = c" and "prefix q (re_sub pat r cs)" by simp_all
      moreover have "no_overlap q r" using Cons.prems(2) by simp
      ultimately have "prefix q cs" using Cons.IH Cons.prems(1) by blast
      with \<open>a = c\<close> show ?thesis by (simp add: \<open>s = c # cs\<close>)
    qed
  qed
qed

lemma occurs_append_left:
  "q \<noteq> [] \<Longrightarrow> no_overlap r q \<Longrightarrow> occurs q (r @ y) \<Longrightarrow> occurs q y"
proof (induction r)
  case Nil
  then show ?case by simp
next
  case (Cons b r)
  from Cons.prems(3) have "prefix q ((b # r) @ y) \<or> occurs q (r @ y)" by simp
  moreover have "\<not> prefix q ((b # r) @ y)"
    using prefix_append_cases [of q "b # r" y] Cons.prems(2) by auto
  ultimately have "occurs q (r @ y)" by blast
  with Cons show ?case by simp
qed

lemma occurs_drop: "occurs q (drop n s) \<Longrightarrow> occurs q s"
proof (induction s arbitrary: n)
  case Nil
  then show ?case by simp
next
  case (Cons c cs)
  show ?case
  proof (cases n)
    case 0
    with Cons.prems show ?thesis by simp
  next
    case (Suc m)
    with Cons show ?thesis by auto
  qed
qed

lemma occurs_re_sub:
  "pat \<noteq> [] \<Longrightarrow> q \<noteq> [] \<Longrightarrow> no_overlap q r \<Longrightarrow> no_overlap r q \<Longrightarrow>
     occurs q (re_sub pat r s) \<Longrightarrow> occurs q s"
proof (induction s rule: length_induct)
  case (1 s)
  show ?case
  proof (cases s)
    case Nil
    with "1.prems" show ?thesis by (simp add: re_sub_Nil)
  next
    case (Cons c cs)
    show ?thesis
    proof (cases "prefix pat (c # cs)")
      case True
      with "1.prems" have "occurs q (r @ re_sub pat r (drop (length pat) (c # cs)))"
        by (simp add: Cons re_sub_match)
      then have "occurs q (re_sub pat r (drop (length pat) (c # cs)))"
        using "1.prems" occurs_append_left by blast
      moreover have "length (drop (length pat) (c # cs)) < length s"
        using "1.prems"(1) by (simp add: Cons)
      ultimately have "occurs q (drop (length pat) (c # cs))"
        using "1.IH" "1.prems" by blast
      then show ?thesis unfolding Cons by (rule occurs_drop)
    next
      case False
      with "1.prems" have o: "occurs q (c # re_sub pat r cs)"
        by (simp add: Cons re_sub_skip)
      show ?thesis
      proof (cases "prefix q (c # re_sub pat r cs)")
        case True
        then have "prefix q (re_sub pat r s)" using False "1.prems"(1) by (simp add: Cons re_sub_skip)
        then have "prefix q s" using prefix_re_sub "1.prems" by blast
        then show ?thesis by (simp add: Cons)
      next
        case False
        with o have "occurs q (re_sub pat r cs)" by simp
        then have "occurs q cs" using "1.IH" "1.prems" by (simp add: Cons)
        then show ?thesis by (simp add: Cons)
      qed
    qed
  qed
qed

lemma not_occurs_re_sub:
  "pat \<noteq> [] \<Longrightarrow> no_overlap pat r \<Longrightarrow> no_overlap r pat \<Longrightarrow> \<not> occurs pat (re_sub pat r s)"
proof (induction s rule: length_induct)
  case (1 s)
  show ?case
  proof (cases s)
    case Nil
    with "1.prems" show ?thesis by (simp add: re_sub_Nil)
  next
    case (Cons c cs)
    show ?thesis
    proof (cases "prefix pat (c # cs)")
      case True
      have "length (drop (length pat) (c # cs)) < length s"
        using "1.prems"(1) by (simp add: Cons)
      then have "\<not> occurs pat (re_sub pat r (drop (length pat) (c # cs)))"
        using "1.IH" "1.prems" by blast
      then have "\<not> occurs pat (r @ re_sub pat r (drop (length pat) (c # cs)))"
        using occurs_append_left "1.prems" by blast
      then show ?thesis using True "1.prems"(1) by (simp add: Cons re_sub_match)
    next
      case False
      have "\<not> prefix pat (re_sub pat r s)"
        using prefix_re_sub [of pat pat r s] "1.prems" False Cons by blast
      moreover have "\<not> occurs pat (re_sub pat r cs)"
        using "1.IH" "1.prems" by (simp add: Cons)
      ultimately show ?thesis using False "1.prems"(1) by (simp add: Cons re_sub_skip)
    qed
  qed
qed

lemma re_sub_no_occurrence:
  "pat \<noteq> [] \<Longrightarrow> \<not> occurs pat s \<Longrightarrow> re_sub pat r s = s"
  by (induction s) (auto simp: re_sub_Nil re_sub_skip)

lemma apply_patterns_PATTERNS:
  "apply_patterns PATTERNS s =
     re_sub (''require('' @ [CHR 0x27] @ ''@/'') (''require('' @ [CHR 0x27] @ ''#@/'')
       (re_sub (''from '' @ [CHR 0x27] @ ''@/'') (''from '' @ [CHR 0x27] @ ''#@/'') s)"
  by (simp add: PATTERNS_def)

lemma apply_patterns_idem:
  "apply_patterns PATTERNS (apply_patterns PATTERNS s) = apply_patterns PATTERNS s"
proof -
  define p1 where "p1 = ''from '' @ [CHR 0x27] @ ''@/''"
  define r1 where "r1 = ''from '' @ [CHR 0x27] @ ''#@/''"
  define p2 where "p2 = ''require('' @ [CHR 0x27] @ ''@/''"
  define r2 where "r2 = ''require('' @ [CHR 0x27] @ ''#@/''"
  have ne: "p1 \<noteq> []" "p2 \<noteq> []" by (simp_all add: p1_def p2_def)
  have o11: "no_overlap p1 r1" "no_overlap r1 p1" by (simp_all add: p1_def r1_def)
  have o22: "no_overlap p2 r2" "no_overlap r2 p2" by (simp_all add: p2_def r2_def)
  have o12: "no_overlap p1 r2" "no_overlap r2 p1" by (simp_all add: p1_def r2_def)
  define b where "b = re_sub p2 r2 (re_sub p1 r1 s)"
  have "\<not> occurs p1 (re_sub p1 r1 s)" using not_occurs_re_sub ne o11 by blast
  then have n1: "\<not> occurs p1 b"
    unfolding b_def using occurs_re_sub [of p2 p1 r2] ne o12 by blast
  have n2: "\<not> occurs p2 b"
    unfolding b_def using not_occurs_re_sub ne o22 by blast
  have "re_sub p2 r2 (re_sub p1 r1 b) = b"
    using n1 n2 ne by (simp add: re_sub_no_occurrence)
  then show ?thesis
    by (simp add: apply_patterns_PATTERNS b_def p1_def p2_def r1_def r2_def)
qed

text \<open>A rewrite of one import line.\<close>

lemma apply_patterns_example:
  "apply_patterns PATTERNS (''import x from '' @ [CHR 0x27] @ ''@/a'' @ [CHR 0x27])
     = ''import x from '' @ [CHR 0x27] @ ''#@/a'' @ [CHR 0x27]"
  by code_simp

section \<open>Lemmas on update\_imports and the loops of main\<close>

text \<open>
  As long as every line can be printed, no exception leaves \<^verbatim>\<open>update_imports\<close>, and the
  loops of \<^verbatim>\<open>main\<close> are a fold of it over the paths of the walk.
\<close>

lemma reads_of_append: "reads_of (xs @ ys) = reads_of xs @ reads_of ys"
  by (induction xs rule: reads_of.induct) auto

lemma py_print_ok: "print_error w m = None \<Longrightarrow> py_print m w = (emit (Print m) w, None)"
  by (simp add: py_print_def)

lemma py_print_static:
  "file_of (fst (py_print m w)) = file_of w"
  "on_write (fst (py_print m w)) = on_write w"
  "print_error (fst (py_print m w)) = print_error w"
  "contents (fst (py_print m w)) = contents w"
  by (simp_all add: py_print_def emit_def split: option.splits)

lemma py_print_trace_mono: "set (trace w) \<subseteq> set (trace (fst (py_print m w)))"
  by (auto simp: py_print_def emit_def split: option.splits)

lemma update_body_static:
  "file_of (fst (update_body p w)) = file_of w"
  "on_write (fst (update_body p w)) = on_write w"
  "print_error (fst (update_body p w)) = print_error w"
  by (auto simp: update_body_def py_print_def emit_def Let_def
        split: sum.splits option.splits write_outcome.splits prod.splits)

lemma update_static:
  "file_of (fst (update_imports p w)) = file_of w"
  "on_write (fst (update_imports p w)) = on_write w"
  "print_error (fst (update_imports p w)) = print_error w"
  using update_body_static [of p w]
  by (auto simp: update_imports_def py_print_static split: prod.splits option.splits)

lemma update_body_ok:
  assumes ok: "\<forall>m. print_error w m = None"
  shows "update_body p w =
     (case contents w (file_of w p) of
        Inl e \<Rightarrow> (emit (OpenRead p) w, Some e)
      | Inr c \<Rightarrow>
          if apply_patterns PATTERNS c \<noteq> c then
            (case on_write w p of
               OpenFails e \<Rightarrow>
                 (w\<lparr>trace := trace w @ [OpenRead p, Print (''Updating file: '' @ p), OpenWrite p]\<rparr>,
                  Some e)
             | WriteFails e left \<Rightarrow>
                 (w\<lparr>trace := trace w @ [OpenRead p, Print (''Updating file: '' @ p), OpenWrite p],
                    contents := (contents w)(file_of w p := left)\<rparr>, Some e)
             | WriteOk \<Rightarrow>
                 (w\<lparr>trace := trace w @ [OpenRead p, Print (''Updating file: '' @ p), OpenWrite p],
                    contents := (contents w)(file_of w p := Inr (apply_patterns PATTERNS c))\<rparr>,
                  None))
          else (w\<lparr>trace := trace w @ [OpenRead p, Print (''No changes needed for: '' @ p)]\<rparr>, None))"
  using ok
  by (auto simp: update_body_def py_print_def emit_def Let_def
        split: sum.splits write_outcome.splits)

lemma update_ok_none:
  assumes ok: "\<forall>m. print_error w m = None"
  shows "snd (update_imports p w) = None"
proof -
  have "print_error (fst (update_body p w)) = print_error w" by (rule update_body_static)
  then have "\<forall>m. print_error (fst (update_body p w)) m = None" using ok by simp
  then show ?thesis
    by (cases "update_body p w") (auto simp: update_imports_def py_print_def split: option.splits)
qed

lemma update_trace:
  assumes ok: "\<forall>m. print_error w m = None"
  shows "trace (fst (update_imports p w)) = trace w @
     (case contents w (file_of w p) of
        Inl e \<Rightarrow> [OpenRead p, Print (error_message p e)]
      | Inr c \<Rightarrow>
          if apply_patterns PATTERNS c \<noteq> c
          then [OpenRead p, Print (''Updating file: '' @ p), OpenWrite p]
                 @ (case write_failure (on_write w p) of
                      None \<Rightarrow> [] | Some e \<Rightarrow> [Print (error_message p e)])
          else [OpenRead p, Print (''No changes needed for: '' @ p)])"
  using ok
  by (auto simp: update_imports_def update_body_ok [OF ok] py_print_def emit_def error_message_def
        split: sum.splits write_outcome.splits)

lemma update_contents:
  assumes ok: "\<forall>m. print_error w m = None"
  shows "contents (fst (update_imports p w)) =
     (case contents w (file_of w p) of
        Inl e \<Rightarrow> contents w
      | Inr c \<Rightarrow>
          if apply_patterns PATTERNS c \<noteq> c
          then (case on_write w p of
                  WriteOk \<Rightarrow> (contents w)(file_of w p := Inr (apply_patterns PATTERNS c))
                | OpenFails e \<Rightarrow> contents w
                | WriteFails e left \<Rightarrow> (contents w)(file_of w p := left))
          else contents w)"
  using ok
  by (auto simp: update_imports_def update_body_ok [OF ok] py_print_def emit_def
        split: sum.splits write_outcome.splits)

lemma update_reads:
  "\<forall>m. print_error w m = None \<Longrightarrow>
     reads_of (trace (fst (update_imports p w))) = reads_of (trace w) @ [p]"
  by (simp add: update_trace reads_of_append split: sum.splits option.splits)

lemma update_trace_mono:
  "\<forall>m. print_error w m = None \<Longrightarrow> set (trace w) \<subseteq> set (trace (fst (update_imports p w)))"
  by (simp add: update_trace)

lemma update_contents_other:
  "\<forall>m. print_error w m = None \<Longrightarrow> x \<noteq> file_of w p \<Longrightarrow>
     contents (fst (update_imports p w)) x = contents w x"
  by (simp add: update_contents split: sum.splits write_outcome.splits)

lemma rewrite_of_idem: "rewrite_of (rewrite_of v) = rewrite_of v"
  by (cases v) (simp_all add: rewrite_of_def apply_patterns_idem)

lemma update_contents_written:
  "\<forall>m. print_error w m = None \<Longrightarrow> on_write w p = WriteOk \<Longrightarrow>
     contents (fst (update_imports p w)) (file_of w p) = rewrite_of (contents w (file_of w p))"
  by (auto simp: update_contents rewrite_of_def split: sum.splits)

lemma update_keeps_unreadable:
  "\<forall>m. print_error w m = None \<Longrightarrow> contents w x = Inl e \<Longrightarrow>
     contents (fst (update_imports q w)) x = Inl e"
  by (auto simp: update_contents split: sum.splits write_outcome.splits)

lemma update_read_error:
  "\<forall>m. print_error w m = None \<Longrightarrow> contents w (file_of w p) = Inl e \<Longrightarrow>
     Print (error_message p e) \<in> set (trace (fst (update_imports p w)))"
  by (simp add: update_trace)

lemma update_write_failure:
  "\<forall>m. print_error w m = None \<Longrightarrow> contents w (file_of w p) = Inr c \<Longrightarrow>
   apply_patterns PATTERNS c \<noteq> c \<Longrightarrow> write_failure (on_write w p) = Some e \<Longrightarrow>
     Print (error_message p e) \<in> set (trace (fst (update_imports p w)))"
  by (simp add: update_trace)

lemma fold_static:
  "file_of (foldl (\<lambda>w p. fst (update_imports p w)) w ps) = file_of w"
  "on_write (foldl (\<lambda>w p. fst (update_imports p w)) w ps) = on_write w"
  "print_error (foldl (\<lambda>w p. fst (update_imports p w)) w ps) = print_error w"
  by (induction ps arbitrary: w) (simp_all add: update_static)

lemma js_loop_fold:
  "\<forall>m. print_error w m = None \<Longrightarrow>
   js_loop root files w =
     (foldl (\<lambda>w p. fst (update_imports p w)) w
        (map (path_join root) (filter (suffix ''.js'') files)), None)"
proof (induction files arbitrary: w)
  case Nil
  then show ?case by simp
next
  case (Cons f files)
  show ?case
  proof (cases "suffix ''.js'' f")
    case True
    obtain w' where u: "update_imports (path_join root f) w = (w', None)"
      using update_ok_none [OF Cons.prems, of "path_join root f"]
      by (cases "update_imports (path_join root f) w") auto
    have "print_error w' = print_error w"
      using update_static(3) [of "path_join root f" w] u by simp
    then have "\<forall>m. print_error w' m = None" using Cons.prems by simp
    then show ?thesis using Cons.IH [of w'] True u by simp
  next
    case False
    then show ?thesis using Cons.IH [OF Cons.prems] by simp
  qed
qed

lemma main_loop_fold:
  "\<forall>m. print_error w m = None \<Longrightarrow>
   main_loop items w = (foldl (\<lambda>w p. fst (update_imports p w)) w (js_paths items), None)"
proof (induction items arbitrary: w)
  case Nil
  then show ?case by (simp add: js_paths_def)
next
  case (Cons item items)
  obtain root dirs files where item: "item = (root, dirs, files)" by (cases item)
  define w' where "w' = foldl (\<lambda>w p. fst (update_imports p w)) w
        (map (path_join root) (filter (suffix ''.js'') files))"
  have j: "js_loop root files w = (w', None)"
    using js_loop_fold [OF Cons.prems] by (simp add: w'_def)
  have "print_error w' = print_error w" unfolding w'_def by (rule fold_static)
  then have "\<forall>m. print_error w' m = None" using Cons.prems by simp
  then have "main_loop items w' = (foldl (\<lambda>w p. fst (update_imports p w)) w' (js_paths items), None)"
    by (rule Cons.IH)
  then show ?case by (simp add: item j js_paths_def w'_def)
qed

lemma fold_reads:
  "\<forall>m. print_error w m = None \<Longrightarrow>
   reads_of (trace (foldl (\<lambda>w p. fst (update_imports p w)) w ps)) = reads_of (trace w) @ ps"
proof (induction ps arbitrary: w)
  case Nil
  then show ?case by simp
next
  case (Cons p ps)
  have "\<forall>m. print_error (fst (update_imports p w)) m = None"
    using Cons.prems by (simp add: update_static)
  then show ?case using Cons.IH [of "fst (update_imports p w)"] Cons.prems
    by (simp add: update_reads)
qed

lemma fold_trace_mono:
  "\<forall>m. print_error w m = None \<Longrightarrow>
   set (trace w) \<subseteq> set (trace (foldl (\<lambda>w p. fst (update_imports p w)) w ps))"
proof (induction ps arbitrary: w)
  case Nil
  then show ?case by simp
next
  case (Cons p ps)
  have "\<forall>m. print_error (fst (update_imports p w)) m = None"
    using Cons.prems by (simp add: update_static)
  then show ?case
    using Cons.IH [of "fst (update_imports p w)"] update_trace_mono [OF Cons.prems, of p] by auto
qed

lemma fold_contents_other:
  "\<forall>m. print_error w m = None \<Longrightarrow> x \<notin> file_of w ` set ps \<Longrightarrow>
   contents (foldl (\<lambda>w p. fst (update_imports p w)) w ps) x = contents w x"
proof (induction ps arbitrary: w)
  case Nil
  then show ?case by simp
next
  case (Cons p ps)
  have ok: "\<forall>m. print_error (fst (update_imports p w)) m = None"
    using Cons.prems(1) by (simp add: update_static)
  have x: "x \<noteq> file_of w p" "x \<notin> file_of (fst (update_imports p w)) ` set ps"
    using Cons.prems(2) by (auto simp: update_static)
  show ?case
    using Cons.IH [OF ok x(2)] update_contents_other [OF Cons.prems(1) x(1)] by simp
qed

lemma fold_contents_written:
  "\<forall>m. print_error w m = None \<Longrightarrow> x \<in> file_of w ` set ps \<Longrightarrow>
   \<forall>q \<in> set ps. file_of w q = x \<longrightarrow> on_write w q = WriteOk \<Longrightarrow>
   contents (foldl (\<lambda>w p. fst (update_imports p w)) w ps) x = rewrite_of (contents w x)"
proof (induction ps arbitrary: w)
  case Nil
  then show ?case by simp
next
  case (Cons p ps)
  define w' where "w' = fst (update_imports p w)"
  have ok: "\<forall>m. print_error w' m = None"
    using Cons.prems(1) by (simp add: w'_def update_static)
  have st: "file_of w' = file_of w" "on_write w' = on_write w"
    by (simp_all add: w'_def update_static)
  have good: "\<forall>q \<in> set ps. file_of w' q = x \<longrightarrow> on_write w' q = WriteOk"
    using Cons.prems(3) by (simp add: st)
  have step: "contents w' x = (if file_of w p = x then rewrite_of (contents w x) else contents w x)"
  proof (cases "file_of w p = x")
    case True
    then have "on_write w p = WriteOk" using Cons.prems(3) by simp
    then show ?thesis
      using update_contents_written [OF Cons.prems(1), of p] True by (simp add: w'_def)
  next
    case False
    then show ?thesis
      using update_contents_other [OF Cons.prems(1), of x p] by (simp add: w'_def)
  qed
  show ?case
  proof (cases "x \<in> file_of w' ` set ps")
    case True
    then have "contents (foldl (\<lambda>w p. fst (update_imports p w)) w' ps) x = rewrite_of (contents w' x)"
      using Cons.IH [OF ok _ good] by simp
    then show ?thesis by (simp add: w'_def [symmetric] step rewrite_of_idem)
  next
    case False
    then have "contents (foldl (\<lambda>w p. fst (update_imports p w)) w' ps) x = contents w' x"
      using fold_contents_other [OF ok] by simp
    moreover have "file_of w p = x" using False Cons.prems(2) by (auto simp: st)
    ultimately show ?thesis by (simp add: w'_def [symmetric] step)
  qed
qed

lemma fold_read_error:
  "\<forall>m. print_error w m = None \<Longrightarrow> p \<in> set ps \<Longrightarrow> contents w (file_of w p) = Inl e \<Longrightarrow>
     Print (error_message p e) \<in> set (trace (foldl (\<lambda>w p. fst (update_imports p w)) w ps))"
proof (induction ps arbitrary: w)
  case Nil
  then show ?case by simp
next
  case (Cons q ps)
  define w' where "w' = fst (update_imports q w)"
  have ok: "\<forall>m. print_error w' m = None"
    using Cons.prems(1) by (simp add: w'_def update_static)
  show ?case
  proof (cases "p = q")
    case True
    then have "Print (error_message p e) \<in> set (trace w')"
      using update_read_error [OF Cons.prems(1,3)] by (simp add: w'_def)
    then show ?thesis using fold_trace_mono [OF ok, of ps] by (auto simp: w'_def)
  next
    case False
    then have "p \<in> set ps" using Cons.prems(2) by simp
    moreover have "contents w' (file_of w' p) = Inl e"
      using update_keeps_unreadable [OF Cons.prems(1,3)] by (simp add: w'_def update_static)
    ultimately show ?thesis using Cons.IH [OF ok] by (simp add: w'_def)
  qed
qed

lemma fold_write_failure:
  "\<forall>m. print_error w m = None \<Longrightarrow> p \<in> set ps \<Longrightarrow> contents w (file_of w p) = Inr c \<Longrightarrow>
   apply_patterns PATTERNS c \<noteq> c \<Longrightarrow> \<forall>q \<in> set ps. file_of w q = file_of w p \<longrightarrow> q = p \<Longrightarrow>
   write_failure (on_write w p) = Some e \<Longrightarrow>
     Print (error_message p e) \<in> set (trace (foldl (\<lambda>w p. fst (update_imports p w)) w ps))"
proof (induction ps arbitrary: w)
  case Nil
  then show ?case by simp
next
  case (Cons q ps)
  define w' where "w' = fst (update_imports q w)"
  have ok: "\<forall>m. print_error w' m = None"
    using Cons.prems(1) by (simp add: w'_def update_static)
  have st: "file_of w' = file_of w" "on_write w' = on_write w"
    by (simp_all add: w'_def update_static)
  show ?case
  proof (cases "p = q")
    case True
    then have "Print (error_message p e) \<in> set (trace w')"
      using update_write_failure [OF Cons.prems(1,3,4,6)] by (simp add: w'_def)
    then show ?thesis using fold_trace_mono [OF ok, of ps] by (auto simp: w'_def)
  next
    case False
    then have m: "p \<in> set ps" using Cons.prems(2) by simp
    have "file_of w q \<noteq> file_of w p" using False Cons.prems(5) by auto
    then have "contents w' (file_of w p) = contents w (file_of w p)"
      using update_contents_other [OF Cons.prems(1), of "file_of w p" q] by (simp add: w'_def)
    then have c: "contents w' (file_of w' p) = Inr c" using Cons.prems(3) by (simp add: st)
    have u: "\<forall>q \<in> set ps. file_of w' q = file_of w' p \<longrightarrow> q = p"
      using Cons.prems(5) by (simp add: st)
    have f: "write_failure (on_write w' p) = Some e" using Cons.prems(6) by (simp add: st)
    show ?thesis using Cons.IH [OF ok m c Cons.prems(4) u f] by (simp add: w'_def)
  qed
qed

lemma main_eq:
  "resolve fs ROOT_DIR = Some nd \<Longrightarrow> is_dir nd \<Longrightarrow> \<forall>m. print_error w m = None \<Longrightarrow>
   main fs w =
     (emit (Print (newline @ ''Import update process completed. Please run your server again.''))
        (foldl (\<lambda>w p. fst (update_imports p w)) w (js_paths (os_walk ROOT_DIR nd))), None)"
proof -
  assume r: "resolve fs ROOT_DIR = Some nd" and d: "is_dir nd" and ok: "\<forall>m. print_error w m = None"
  have "\<forall>m. print_error (foldl (\<lambda>w p. fst (update_imports p w)) w (js_paths (os_walk ROOT_DIR nd))) m = None"
    using ok by (simp add: fold_static)
  then show ?thesis
    using r d by (simp add: main_def main_loop_fold [OF ok] py_print_ok)
qed

section \<open>Properties of update\_imports.py\<close>

text \<open>
  C9.  Applying the replacements of \<^verbatim>\<open>PATTERNS\<close> to a text that has already been
  rewritten changes nothing.
\<close>

theorem rewrite_idempotent:
  "apply_patterns PATTERNS (apply_patterns PATTERNS s) = apply_patterns PATTERNS s"
  by (rule apply_patterns_idem)



text \<open>
  C8 as stated fails in two ways.  A file \<^verbatim>\<open>src/lib/c.js\<close> below a directory that the
  walk does not enter is under the root and its name ends with \<^verbatim>\<open>.js\<close>, yet \<^verbatim>\<open>main\<close>
  opens no file and ends without any report.  And when printing fails, the report of the
  error of \<^verbatim>\<open>src/a.js\<close> raises outside the \<^verbatim>\<open>try\<close>: the exception leaves \<^verbatim>\<open>main\<close> and
  \<^verbatim>\<open>src/b.js\<close> is never opened.
\<close>

theorem main_skips_files_counterexample:
  "below (Dir [(''lib'', Closed [(''c.js'', File)])]) [''lib'', ''c.js''] File
   \<and> suffix ''.js'' ''c.js''
   \<and> chain_path ROOT_DIR [''lib'', ''c.js''] = ''src/lib/c.js''
   \<and> reads_of (trace (fst (main (\<lambda>p. if p = ''src'' then Some (Dir [(''lib'', Closed [(''c.js'', File)])]) else None) \<lparr>file_of = (\<lambda>p. 0), contents = (\<lambda>x. Inr ''let a = 1;''), on_write = (\<lambda>p. WriteOk), print_error = (\<lambda>m. None), trace = []\<rparr>))) = []
   \<and> snd (main (\<lambda>p. if p = ''src'' then Some (Dir [(''lib'', Closed [(''c.js'', File)])]) else None) \<lparr>file_of = (\<lambda>p. 0), contents = (\<lambda>x. Inr ''let a = 1;''), on_write = (\<lambda>p. WriteOk), print_error = (\<lambda>m. None), trace = []\<rparr>) = None
   \<and> at_chain (Dir [(''a.js'', File), (''b.js'', File)]) [''b.js''] File
   \<and> chain_path ROOT_DIR [''b.js''] = ''src/b.js''
   \<and> reads_of (trace (fst (main (\<lambda>p. if p = ''src'' then Some (Dir [(''a.js'', File), (''b.js'', File)]) else None) \<lparr>file_of = (\<lambda>p. 0), contents = (\<lambda>x. Inl ''denied''), on_write = (\<lambda>p. WriteOk), print_error = (\<lambda>m. Some ''Broken pipe''), trace = []\<rparr>))) = [''src/a.js'']
   \<and> snd (main (\<lambda>p. if p = ''src'' then Some (Dir [(''a.js'', File), (''b.js'', File)]) else None) \<lparr>file_of = (\<lambda>p. 0), contents = (\<lambda>x. Inl ''denied''), on_write = (\<lambda>p. WriteOk), print_error = (\<lambda>m. Some ''Broken pipe''), trace = []\<rparr>) = Some ''Broken pipe''"
proof -
  have 1: "below (Dir [(''lib'', Closed [(''c.js'', File)])]) [''lib'', ''c.js''] File"
    by (auto intro!: below.intros)
  have 2: "suffix ''.js'' ''c.js''" by code_simp
  have 3: "chain_path ROOT_DIR [''lib'', ''c.js''] = ''src/lib/c.js''" by code_simp
  have 4: "reads_of (trace (fst (main (\<lambda>p. if p = ''src'' then Some (Dir [(''lib'', Closed [(''c.js'', File)])]) else None) \<lparr>file_of = (\<lambda>p. 0), contents = (\<lambda>x. Inr ''let a = 1;''), on_write = (\<lambda>p. WriteOk), print_error = (\<lambda>m. None), trace = []\<rparr>))) = []" by code_simp
  have 5: "snd (main (\<lambda>p. if p = ''src'' then Some (Dir [(''lib'', Closed [(''c.js'', File)])]) else None) \<lparr>file_of = (\<lambda>p. 0), contents = (\<lambda>x. Inr ''let a = 1;''), on_write = (\<lambda>p. WriteOk), print_error = (\<lambda>m. None), trace = []\<rparr>) = None" by code_simp
  have 6: "at_chain (Dir [(''a.js'', File), (''b.js'', File)]) [''b.js''] File"
    by (auto intro!: at_chain.intros)
  have 7: "chain_path ROOT_DIR [''b.js''] = ''src/b.js''" by code_simp
  have 8: "reads_of (trace (fst (main (\<lambda>p. if p = ''src'' then Some (Dir [(''a.js'', File), (''b.js'', File)]) else None) \<lparr>file_of = (\<lambda>p. 0), contents = (\<lambda>x. Inl ''denied''), on_write = (\<lambda>p. WriteOk), print_error = (\<lambda>m. Some ''Broken pipe''), trace = []\<rparr>))) = [''src/a.js'']" by code_simp
  have 9: "snd (main (\<lambda>p. if p = ''src'' then Some (Dir [(''a.js'', File), (''b.js'', File)]) else None) \<lparr>file_of = (\<lambda>p. 0), contents = (\<lambda>x. Inl ''denied''), on_write = (\<lambda>p. WriteOk), print_error = (\<lambda>m. Some ''Broken pipe''), trace = []\<rparr>) = Some ''Broken pipe''" by code_simp
  show ?thesis
    by (intro conjI) (rule 1, rule 2, rule 3, rule 4, rule 5, rule 6, rule 7, rule 8, rule 9)
qed

text \<open>
  C8 as amended.  When \<^verbatim>\<open>src\<close> is a directory and every line can be printed, \<^verbatim>\<open>main\<close>
  raises nothing and hands to \<^verbatim>\<open>update_imports\<close> exactly the files whose name ends with
  \<^verbatim>\<open>.js\<close> and that are reached from the root through directories the walk enters, in
  walk order.  A file object that none of these paths names is left as it was; one whose
  every processed name can be written reads as its rewritten text afterwards.  A file that
  fails to be read, or (being named once) to be written, has its error message printed,
  and the run still goes through all files and ends with the completion message.
\<close>

theorem main_processes_js_files:
  "resolve fs ROOT_DIR = Some nd \<Longrightarrow> is_dir nd \<Longrightarrow> \<forall>m. print_error w m = None \<Longrightarrow>
   (let w' = fst (main fs w); ps = js_paths (os_walk ROOT_DIR nd) in
      snd (main fs w) = None
    \<and> set ps = {chain_path ROOT_DIR ns | ns.
                  ns \<noteq> [] \<and> at_chain nd ns File \<and> suffix ''.js'' (last ns)}
    \<and> reads_of (trace w') = reads_of (trace w) @ ps
    \<and> (\<forall>x. x \<notin> file_of w ` set ps \<longrightarrow> contents w' x = contents w x)
    \<and> (\<forall>p. p \<in> set ps \<and> (\<forall>q \<in> set ps. file_of w q = file_of w p \<longrightarrow> on_write w q = WriteOk)
          \<longrightarrow> contents w' (file_of w p) = rewrite_of (contents w (file_of w p)))
    \<and> (\<forall>p e. p \<in> set ps \<and> contents w (file_of w p) = Inl e \<longrightarrow>
          Print (error_message p e) \<in> set (trace w'))
    \<and> (\<forall>p c e. p \<in> set ps \<and> contents w (file_of w p) = Inr c
                \<and> apply_patterns PATTERNS c \<noteq> c
                \<and> (\<forall>q \<in> set ps. file_of w q = file_of w p \<longrightarrow> q = p)
                \<and> write_failure (on_write w p) = Some e \<longrightarrow>
          Print (error_message p e) \<in> set (trace w'))
    \<and> last (trace w') =
        Print (newline @ ''Import update process completed. Please run your server again.''))"
proof -
  assume r: "resolve fs ROOT_DIR = Some nd" and d: "is_dir nd"
    and ok: "\<forall>m. print_error w m = None"
  define ps where "ps = js_paths (os_walk ROOT_DIR nd)"
  define v where "v = foldl (\<lambda>w p. fst (update_imports p w)) w ps"
  define fin where
    "fin = Print (newline @ ''Import update process completed. Please run your server again.'')"
  have m: "main fs w = (emit fin v, None)"
    using main_eq [OF r d ok] by (simp add: v_def ps_def fin_def)
  have t: "trace (fst (main fs w)) = trace v @ [fin]"
    and c: "contents (fst (main fs w)) = contents v"
    by (simp_all add: m emit_def)
  have 0: "snd (main fs w) = None" by (simp add: m)
  have 1: "set ps = {chain_path ROOT_DIR ns | ns.
                  ns \<noteq> [] \<and> at_chain nd ns File \<and> suffix ''.js'' (last ns)}"
    unfolding ps_def by (rule js_paths_set)
  have 2: "reads_of (trace (fst (main fs w))) = reads_of (trace w) @ ps"
    by (simp add: t reads_of_append v_def fold_reads [OF ok] fin_def)
  have 3: "\<forall>x. x \<notin> file_of w ` set ps \<longrightarrow> contents (fst (main fs w)) x = contents w x"
    using fold_contents_other [OF ok, of _ ps] by (simp add: c v_def)
  have 4: "\<forall>p. p \<in> set ps \<and> (\<forall>q \<in> set ps. file_of w q = file_of w p \<longrightarrow> on_write w q = WriteOk)
          \<longrightarrow> contents (fst (main fs w)) (file_of w p) = rewrite_of (contents w (file_of w p))"
    using fold_contents_written [OF ok, of _ ps] by (simp add: c v_def)
  have 5: "\<forall>p e. p \<in> set ps \<and> contents w (file_of w p) = Inl e \<longrightarrow>
          Print (error_message p e) \<in> set (trace (fst (main fs w)))"
    using fold_read_error [OF ok, of _ ps] by (auto simp: t v_def)
  have 6: "\<forall>p c e. p \<in> set ps \<and> contents w (file_of w p) = Inr c
                \<and> apply_patterns PATTERNS c \<noteq> c
                \<and> (\<forall>q \<in> set ps. file_of w q = file_of w p \<longrightarrow> q = p)
                \<and> write_failure (on_write w p) = Some e \<longrightarrow>
          Print (error_message p e) \<in> set (trace (fst (main fs w)))"
    using fold_write_failure [OF ok, of _ ps] by (auto simp: t v_def)
  have 7: "last (trace (fst (main fs w))) = fin" by (simp add: t)
  show ?thesis
    unfolding Let_def ps_def [symmetric] fin_def [symmetric]
    using 0 1 2 3 4 5 6 7 by blast
qed

theorem main_processes_js_files_witness:
  "resolve (\<lambda>p. if p = ''src'' then Some (Dir [(''a.js'', File), (''b.txt'', File), (''lib'', Dir [(''c.js'', File)])]) else None) ROOT_DIR = Some (Dir [(''a.js'', File), (''b.txt'', File), (''lib'', Dir [(''c.js'', File)])])
   \<and> is_dir (Dir [(''a.js'', File), (''b.txt'', File), (''lib'', Dir [(''c.js'', File)])])
   \<and> (\<forall>m. print_error \<lparr>file_of = (\<lambda>p. if p = ''src/a.js'' then 1 else if p = ''src/lib/c.js'' then 2 else 3), contents = (\<lambda>x. if x = 1 then Inr (''import x from '' @ [CHR 0x27] @ ''@/a'' @ [CHR 0x27]) else if x = 2 then Inl ''denied'' else Inr (''import y from '' @ [CHR 0x27] @ ''@/b'' @ [CHR 0x27])), on_write = (\<lambda>p. WriteOk), print_error = (\<lambda>m. None), trace = []\<rparr> m = None)
   \<and> (let w' = fst (main (\<lambda>p. if p = ''src'' then Some (Dir [(''a.js'', File), (''b.txt'', File), (''lib'', Dir [(''c.js'', File)])]) else None) \<lparr>file_of = (\<lambda>p. if p = ''src/a.js'' then 1 else if p = ''src/lib/c.js'' then 2 else 3), contents = (\<lambda>x. if x = 1 then Inr (''import x from '' @ [CHR 0x27] @ ''@/a'' @ [CHR 0x27]) else if x = 2 then Inl ''denied'' else Inr (''import y from '' @ [CHR 0x27] @ ''@/b'' @ [CHR 0x27])), on_write = (\<lambda>p. WriteOk), print_error = (\<lambda>m. None), trace = []\<rparr>); ps = js_paths (os_walk ROOT_DIR (Dir [(''a.js'', File), (''b.txt'', File), (''lib'', Dir [(''c.js'', File)])])) in
      snd (main (\<lambda>p. if p = ''src'' then Some (Dir [(''a.js'', File), (''b.txt'', File), (''lib'', Dir [(''c.js'', File)])]) else None) \<lparr>file_of = (\<lambda>p. if p = ''src/a.js'' then 1 else if p = ''src/lib/c.js'' then 2 else 3), contents = (\<lambda>x. if x = 1 then Inr (''import x from '' @ [CHR 0x27] @ ''@/a'' @ [CHR 0x27]) else if x = 2 then Inl ''denied'' else Inr (''import y from '' @ [CHR 0x27] @ ''@/b'' @ [CHR 0x27])), on_write = (\<lambda>p. WriteOk), print_error = (\<lambda>m. None), trace = []\<rparr>) = None
    \<and> set ps = {chain_path ROOT_DIR ns | ns.
                  ns \<noteq> [] \<and> at_chain (Dir [(''a.js'', File), (''b.txt'', File), (''lib'', Dir [(''c.js'', File)])]) ns File \<and> suffix ''.js'' (last ns)}
    \<and> reads_of (trace w') = reads_of (trace \<lparr>file_of = (\<lambda>p. if p = ''src/a.js'' then 1 else if p = ''src/lib/c.js'' then 2 else 3), contents = (\<lambda>x. if x = 1 then Inr (''import x from '' @ [CHR 0x27] @ ''@/a'' @ [CHR 0x27]) else if x = 2 then Inl ''denied'' else Inr (''import y from '' @ [CHR 0x27] @ ''@/b'' @ [CHR 0x27])), on_write = (\<lambda>p. WriteOk), print_error = (\<lambda>m. None), trace = []\<rparr>) @ ps
    \<and> (\<forall>x. x \<notin> file_of \<lparr>file_of = (\<lambda>p. if p = ''src/a.js'' then 1 else if p = ''src/lib/c.js'' then 2 else 3), contents = (\<lambda>x. if x = 1 then Inr (''import x from '' @ [CHR 0x27] @ ''@/a'' @ [CHR 0x27]) else if x = 2 then Inl ''denied'' else Inr (''import y from '' @ [CHR 0x27] @ ''@/b'' @ [CHR 0x27])), on_write = (\<lambda>p. WriteOk), print_error = (\<lambda>m. None), trace = []\<rparr> ` set ps \<longrightarrow> contents w' x = contents \<lparr>file_of = (\<lambda>p. if p = ''src/a.js'' then 1 else if p = ''src/lib/c.js'' then 2 else 3), contents = (\<lambda>x. if x = 1 then Inr (''import x from '' @ [CHR 0x27] @ ''@/a'' @ [CHR 0x27]) else if x = 2 then Inl ''denied'' else Inr (''import y from '' @ [CHR 0x27] @ ''@/b'' @ [CHR 0x27])), on_write = (\<lambda>p. WriteOk), print_error = (\<lambda>m. None), trace = []\<rparr> x)
    \<and> (\<forall>p. p \<in> set ps \<and> (\<forall>q \<in> set ps. file_of \<lparr>file_of = (\<lambda>p. if p = ''src/a.js'' then 1 else if p = ''src/lib/c.js'' then 2 else 3), contents = (\<lambda>x. if x = 1 then Inr (''import x from '' @ [CHR 0x27] @ ''@/a'' @ [CHR 0x27]) else if x = 2 then Inl ''denied'' else Inr (''import y from '' @ [CHR 0x27] @ ''@/b'' @ [CHR 0x27])), on_write = (\<lambda>p. WriteOk), print_error = (\<lambda>m. None), trace = []\<rparr> q = file_of \<lparr>file_of = (\<lambda>p. if p = ''src/a.js'' then 1 else if p = ''src/lib/c.js'' then 2 else 3), contents = (\<lambda>x. if x = 1 then Inr (''import x from '' @ [CHR 0x27] @ ''@/a'' @ [CHR 0x27]) else if x = 2 then Inl ''denied'' else Inr (''import y from '' @ [CHR 0x27] @ ''@/b'' @ [CHR 0x27])), on_write = (\<lambda>p. WriteOk), print_error = (\<lambda>m. None), trace = []\<rparr> p \<longrightarrow> on_write \<lparr>file_of = (\<lambda>p. if p = ''src/a.js'' then 1 else if p = ''src/lib/c.js'' then 2 else 3), contents = (\<lambda>x. if x = 1 then Inr (''import x from '' @ [CHR 0x27] @ ''@/a'' @ [CHR 0x27]) else if x = 2 then Inl ''denied'' else Inr (''import y from '' @ [CHR 0x27] @ ''@/b'' @ [CHR 0x27])), on_write = (\<lambda>p. WriteOk), print_error = (\<lambda>m. None), trace = []\<rparr> q = WriteOk)
          \<longrightarrow> contents w' (file_of \<lparr>file_of = (\<lambda>p. if p = ''src/a.js'' then 1 else if p = ''src/lib/c.js'' then 2 else 3), contents = (\<lambda>x. if x = 1 then Inr (''import x from '' @ [CHR 0x27] @ ''@/a'' @ [CHR 0x27]) else if x = 2 then Inl ''denied'' else Inr (''import y from '' @ [CHR 0x27] @ ''@/b'' @ [CHR 0x27])), on_write = (\<lambda>p. WriteOk), print_error = (\<lambda>m. None), trace = []\<rparr> p) = rewrite_of (contents \<lparr>file_of = (\<lambda>p. if p = ''src/a.js'' then 1 else if p = ''src/lib/c.js'' then 2 else 3), contents = (\<lambda>x. if x = 1 then Inr (''import x from '' @ [CHR 0x27] @ ''@/a'' @ [CHR 0x27]) else if x = 2 then Inl ''denied'' else Inr (''import y from '' @ [CHR 0x27] @ ''@/b'' @ [CHR 0x27])), on_write = (\<lambda>p. WriteOk), print_error = (\<lambda>m. None), trace = []\<rparr> (file_of \<lparr>file_of = (\<lambda>p. if p = ''src/a.js'' then 1 else if p = ''src/lib/c.js'' then 2 else 3), contents = (\<lambda>x. if x = 1 then Inr (''import x from '' @ [CHR 0x27] @ ''@/a'' @ [CHR 0x27]) else if x = 2 then Inl ''denied'' else Inr (''import y from '' @ [CHR 0x27] @ ''@/b'' @ [CHR 0x27])), on_write = (\<lambda>p. WriteOk), print_error = (\<lambda>m. None), trace = []\<rparr> p)))
    \<and> (\<forall>p e. p \<in> set ps \<and> contents \<lparr>file_of = (\<lambda>p. if p = ''src/a.js'' then 1 else if p = ''src/lib/c.js'' then 2 else 3), contents = (\<lambda>x. if x = 1 then Inr (''import x from '' @ [CHR 0x27] @ ''@/a'' @ [CHR 0x27]) else if x = 2 then Inl ''denied'' else Inr (''import y from '' @ [CHR 0x27] @ ''@/b'' @ [CHR 0x27])), on_write = (\<lambda>p. WriteOk), print_error = (\<lambda>m. None), trace = []\<rparr> (file_of \<lparr>file_of = (\<lambda>p. if p = ''src/a.js'' then 1 else if p = ''src/lib/c.js'' then 2 else 3), contents = (\<lambda>x. if x = 1 then Inr (''import x from '' @ [CHR 0x27] @ ''@/a'' @ [CHR 0x27]) else if x = 2 then Inl ''denied'' else Inr (''import y from '' @ [CHR 0x27] @ ''@/b'' @ [CHR 0x27])), on_write = (\<lambda>p. WriteOk), print_error = (\<lambda>m. None), trace = []\<rparr> p) = Inl e \<longrightarrow>
          Print (error_message p e) \<in> set (trace w'))
    \<and> (\<forall>p c e. p \<in> set ps \<and> contents \<lparr>file_of = (\<lambda>p. if p = ''src/a.js'' then 1 else if p = ''src/lib/c.js'' then 2 else 3), contents = (\<lambda>x. if x = 1 then Inr (''import x from '' @ [CHR 0x27] @ ''@/a'' @ [CHR 0x27]) else if x = 2 then Inl ''denied'' else Inr (''import y from '' @ [CHR 0x27] @ ''@/b'' @ [CHR 0x27])), on_write = (\<lambda>p. WriteOk), print_error = (\<lambda>m. None), trace = []\<rparr> (file_of \<lparr>file_of = (\<lambda>p. if p = ''src/a.js'' then 1 else if p = ''src/lib/c.js'' then 2 else 3), contents = (\<lambda>x. if x = 1 then Inr (''import x from '' @ [CHR 0x27] @ ''@/a'' @ [CHR 0x27]) else if x = 2 then Inl ''denied'' else Inr (''import y from '' @ [CHR 0x27] @ ''@/b'' @ [CHR 0x27])), on_write = (\<lambda>p. WriteOk), print_error = (\<lambda>m. None), trace = []\<rparr> p) = Inr c
                \<and> apply_patterns PATTERNS c \<noteq> c
                \<and> (\<forall>q \<in> set ps. file_of \<lparr>file_of = (\<lambda>p. if p = ''src/a.js'' then 1 else if p = ''src/lib/c.js'' then 2 else 3), contents = (\<lambda>x. if x = 1 then Inr (''import x from '' @ [CHR 0x27] @ ''@/a'' @ [CHR 0x27]) else if x = 2 then Inl ''denied'' else Inr (''import y from '' @ [CHR 0x27] @ ''@/b'' @ [CHR 0x27])), on_write = (\<lambda>p. WriteOk), print_error = (\<lambda>m. None), trace = []\<rparr> q = file_of \<lparr>file_of = (\<lambda>p. if p = ''src/a.js'' then 1 else if p = ''src/lib/c.js'' then 2 else 3), contents = (\<lambda>x. if x = 1 then Inr (''import x from '' @ [CHR 0x27] @ ''@/a'' @ [CHR 0x27]) else if x = 2 then Inl ''denied'' else Inr (''import y from '' @ [CHR 0x27] @ ''@/b'' @ [CHR 0x27])), on_write = (\<lambda>p. WriteOk), print_error = (\<lambda>m. None), trace = []\<rparr> p \<longrightarrow> q = p)
                \<and> write_failure (on_write \<lparr>file_of = (\<lambda>p. if p = ''src/a.js'' then 1 else if p = ''src/lib/c.js'' then 2 else 3), contents = (\<lambda>x. if x = 1 then Inr (''import x from '' @ [CHR 0x27] @ ''@/a'' @ [CHR 0x27]) else if x = 2 then Inl ''denied'' else Inr (''import y from '' @ [CHR 0x27] @ ''@/b'' @ [CHR 0x27])), on_write = (\<lambda>p. WriteOk), print_error = (\<lambda>m. None), trace = []\<rparr> p) = Some e \<longrightarrow>
          Print (error_message p e) \<in> set (trace w'))
    \<and> last (trace w') =
        Print (newline @ ''Import update process completed. Please run your server again.''))
   \<and> js_paths (os_walk ROOT_DIR (Dir [(''a.js'', File), (''b.txt'', File), (''lib'', Dir [(''c.js'', File)])])) = [''src/a.js'', ''src/lib/c.js'']
   \<and> trace (fst (main (\<lambda>p. if p = ''src'' then Some (Dir [(''a.js'', File), (''b.txt'', File), (''lib'', Dir [(''c.js'', File)])]) else None) \<lparr>file_of = (\<lambda>p. if p = ''src/a.js'' then 1 else if p = ''src/lib/c.js'' then 2 else 3), contents = (\<lambda>x. if x = 1 then Inr (''import x from '' @ [CHR 0x27] @ ''@/a'' @ [CHR 0x27]) else if x = 2 then Inl ''denied'' else Inr (''import y from '' @ [CHR 0x27] @ ''@/b'' @ [CHR 0x27])), on_write = (\<lambda>p. WriteOk), print_error = (\<lambda>m. None), trace = []\<rparr>)) =
       [OpenRead ''src/a.js'', Print ''Updating file: src/a.js'', OpenWrite ''src/a.js'',
        OpenRead ''src/lib/c.js'', Print ''Error processing src/lib/c.js: denied'',
        Print ([CHR 0x0A] @ ''Import update process completed. Please run your server again.'')]
   \<and> contents (fst (main (\<lambda>p. if p = ''src'' then Some (Dir [(''a.js'', File), (''b.txt'', File), (''lib'', Dir [(''c.js'', File)])]) else None) \<lparr>file_of = (\<lambda>p. if p = ''src/a.js'' then 1 else if p = ''src/lib/c.js'' then 2 else 3), contents = (\<lambda>x. if x = 1 then Inr (''import x from '' @ [CHR 0x27] @ ''@/a'' @ [CHR 0x27]) else if x = 2 then Inl ''denied'' else Inr (''import y from '' @ [CHR 0x27] @ ''@/b'' @ [CHR 0x27])), on_write = (\<lambda>p. WriteOk), print_error = (\<lambda>m. None), trace = []\<rparr>)) 1 = Inr (''import x from '' @ [CHR 0x27] @ ''#@/a'' @ [CHR 0x27])
   \<and> contents (fst (main (\<lambda>p. if p = ''src'' then Some (Dir [(''a.js'', File), (''b.txt'', File), (''lib'', Dir [(''c.js'', File)])]) else None) \<lparr>file_of = (\<lambda>p. if p = ''src/a.js'' then 1 else if p = ''src/lib/c.js'' then 2 else 3), contents = (\<lambda>x. if x = 1 then Inr (''import x from '' @ [CHR 0x27] @ ''@/a'' @ [CHR 0x27]) else if x = 2 then Inl ''denied'' else Inr (''import y from '' @ [CHR 0x27] @ ''@/b'' @ [CHR 0x27])), on_write = (\<lambda>p. WriteOk), print_error = (\<lambda>m. None), trace = []\<rparr>)) 2 = Inl ''denied''
   \<and> contents (fst (main (\<lambda>p. if p = ''src'' then Some (Dir [(''a.js'', File), (''b.txt'', File), (''lib'', Dir [(''c.js'', File)])]) else None) \<lparr>file_of = (\<lambda>p. if p = ''src/a.js'' then 1 else if p = ''src/lib/c.js'' then 2 else 3), contents = (\<lambda>x. if x = 1 then Inr (''import x from '' @ [CHR 0x27] @ ''@/a'' @ [CHR 0x27]) else if x = 2 then Inl ''denied'' else Inr (''import y from '' @ [CHR 0x27] @ ''@/b'' @ [CHR 0x27])), on_write = (\<lambda>p. WriteOk), print_error = (\<lambda>m. None), trace = []\<rparr>)) 3 = Inr (''import y from '' @ [CHR 0x27] @ ''@/b'' @ [CHR 0x27])"
proof -
  have r: "resolve (\<lambda>p. if p = ''src'' then Some (Dir [(''a.js'', File), (''b.txt'', File), (''lib'', Dir [(''c.js'', File)])]) else None) ROOT_DIR = Some (Dir [(''a.js'', File), (''b.txt'', File), (''lib'', Dir [(''c.js'', File)])])"
    by (simp add: resolve_def ROOT_DIR_def)
  have d: "is_dir (Dir [(''a.js'', File), (''b.txt'', File), (''lib'', Dir [(''c.js'', File)])])"
    by simp
  have ok: "\<forall>m. print_error \<lparr>file_of = (\<lambda>p. if p = ''src/a.js'' then 1 else if p = ''src/lib/c.js'' then 2 else 3), contents = (\<lambda>x. if x = 1 then Inr (''import x from '' @ [CHR 0x27] @ ''@/a'' @ [CHR 0x27]) else if x = 2 then Inl ''denied'' else Inr (''import y from '' @ [CHR 0x27] @ ''@/b'' @ [CHR 0x27])), on_write = (\<lambda>p. WriteOk), print_error = (\<lambda>m. None), trace = []\<rparr> m = None"
    by simp
  have j: "js_paths (os_walk ROOT_DIR (Dir [(''a.js'', File), (''b.txt'', File), (''lib'', Dir [(''c.js'', File)])])) = [''src/a.js'', ''src/lib/c.js'']"
    by code_simp
  have t: "trace (fst (main (\<lambda>p. if p = ''src'' then Some (Dir [(''a.js'', File), (''b.txt'', File), (''lib'', Dir [(''c.js'', File)])]) else None) \<lparr>file_of = (\<lambda>p. if p = ''src/a.js'' then 1 else if p = ''src/lib/c.js'' then 2 else 3), contents = (\<lambda>x. if x = 1 then Inr (''import x from '' @ [CHR 0x27] @ ''@/a'' @ [CHR 0x27]) else if x = 2 then Inl ''denied'' else Inr (''import y from '' @ [CHR 0x27] @ ''@/b'' @ [CHR 0x27])), on_write = (\<lambda>p. WriteOk), print_error = (\<lambda>m. None), trace = []\<rparr>)) =
       [OpenRead ''src/a.js'', Print ''Updating file: src/a.js'', OpenWrite ''src/a.js'',
        OpenRead ''src/lib/c.js'', Print ''Error processing src/lib/c.js: denied'',
        Print ([CHR 0x0A] @ ''Import update process completed. Please run your server again.'')]"
    by code_simp
  have c1: "contents (fst (main (\<lambda>p. if p = ''src'' then Some (Dir [(''a.js'', File), (''b.txt'', File), (''lib'', Dir [(''c.js'', File)])]) else None) \<lparr>file_of = (\<lambda>p. if p = ''src/a.js'' then 1 else if p = ''src/lib/c.js'' then 2 else 3), contents = (\<lambda>x. if x = 1 then Inr (''import x from '' @ [CHR 0x27] @ ''@/a'' @ [CHR 0x27]) else if x = 2 then Inl ''denied'' else Inr (''import y from '' @ [CHR 0x27] @ ''@/b'' @ [CHR 0x27])), on_write = (\<lambda>p. WriteOk), print_error = (\<lambda>m. None), trace = []\<rparr>)) 1 = Inr (''import x from '' @ [CHR 0x27] @ ''#@/a'' @ [CHR 0x27])"
    by code_simp
  have c2: "contents (fst (main (\<lambda>p. if p = ''src'' then Some (Dir [(''a.js'', File), (''b.txt'', File), (''lib'', Dir [(''c.js'', File)])]) else None) \<lparr>file_of = (\<lambda>p. if p = ''src/a.js'' then 1 else if p = ''src/lib/c.js'' then 2 else 3), contents = (\<lambda>x. if x = 1 then Inr (''import x from '' @ [CHR 0x27] @ ''@/a'' @ [CHR 0x27]) else if x = 2 then Inl ''denied'' else Inr (''import y from '' @ [CHR 0x27] @ ''@/b'' @ [CHR 0x27])), on_write = (\<lambda>p. WriteOk), print_error = (\<lambda>m. None), trace = []\<rparr>)) 2 = Inl ''denied''"
    by code_simp
  have c3: "contents (fst (main (\<lambda>p. if p = ''src'' then Some (Dir [(''a.js'', File), (''b.txt'', File), (''lib'', Dir [(''c.js'', File)])]) else None) \<lparr>file_of = (\<lambda>p. if p = ''src/a.js'' then 1 else if p = ''src/lib/c.js'' then 2 else 3), contents = (\<lambda>x. if x = 1 then Inr (''import x from '' @ [CHR 0x27] @ ''@/a'' @ [CHR 0x27]) else if x = 2 then Inl ''denied'' else Inr (''import y from '' @ [CHR 0x27] @ ''@/b'' @ [CHR 0x27])), on_write = (\<lambda>p. WriteOk), print_error = (\<lambda>m. None), trace = []\<rparr>)) 3 = Inr (''import y from '' @ [CHR 0x27] @ ''@/b'' @ [CHR 0x27])"
    by code_simp
  show ?thesis
    by (intro conjI) (rule r, rule d, rule ok, rule main_processes_js_files [OF r d ok],
        rule j, rule t, rule c1, rule c2, rule c3)
qed

end
